theory Spec2Isabelle
  imports Main "HOL-Library.List_Lexorder" "HOL-Library.Char_ord" "HOL-Library.Multiset"
begin

section \<open>iq2us-rss: a shallow embedding of \<^verbatim>\<open>iq2us_rss/iq2us_rss.py\<close>\<close>

text \<open>
  The script scrapes a sitemap for debate pages, scrapes every debate page for audio
  elements and writes an RSS document. The embedding follows the module function by
  function. Python's \<^verbatim>\<open>unicode\<close> strings are \<^typ>\<open>string\<close>; every character the
  script itself inspects or inserts is ASCII, so a string may be read as the UTF-8 bytes
  of the text. A timezone-aware \<^verbatim>\<open>datetime\<close> is the instant it denotes, in
  microseconds since 1970-01-01T00:00:00+00:00: aware datetimes compare by instant.
  Calls to the logger have no effect on any result and are left out.
\<close>

subsection \<open>Strings\<close>

text \<open>\<^verbatim>\<open>s.replace(c, r)\<close> for a pattern \<open>c\<close> of one character.\<close>

definition str_replace1 :: "char \<Rightarrow> string \<Rightarrow> string \<Rightarrow> string" where
  "str_replace1 c r s = concat (map (\<lambda>x. if x = c then r else [x]) s)"

text \<open>
  \<^verbatim>\<open>cgi.escape(s, quote)\<close> of the standard library:
  \<^verbatim>\<open>
  def escape(s, quote=None):
      s = s.replace("&", "&amp;") # Must be done first!
      s = s.replace("<", "&lt;")
      s = s.replace(">", "&gt;")
      if quote:
          s = s.replace('"', "&quot;")
      return s
  \<close>
\<close>

definition cgi_escape :: "string \<Rightarrow> bool \<Rightarrow> string" where
  "cgi_escape s quote =
     (let s1 = str_replace1 (CHR ''&'') ''&amp;'' s;
          s2 = str_replace1 (CHR ''<'') ''&lt;'' s1;
          s3 = str_replace1 (CHR ''>'') ''&gt;'' s2
      in if quote then str_replace1 (CHR 0x22) ''&quot;'' s3 else s3)"

text \<open>\<^verbatim>\<open>s.endswith(t)\<close>.\<close>

definition endswith :: "string \<Rightarrow> string \<Rightarrow> bool" where
  "endswith s t = (length t \<le> length s \<and> drop (length s - length t) s = t)"

subsection \<open>The reader's side of the escaping: character data of XML 1.0\<close>



subsection \<open>Exceptions and generators\<close>

text \<open>The exceptions that the script or the libraries it calls can raise.
  \<open>RequestException\<close> is \<^verbatim>\<open>requests.exceptions.RequestException\<close> with its
  subclasses, the one exception the script catches around a page; \<open>IOError\<close> is what
  \<^verbatim>\<open>open\<close> raises on a \<^verbatim>\<open>file:\<close> url.\<close>

datatype error =
  RequestException | IOError | AttributeError | KeyError | TypeError | ValueError
  | OverflowError

text \<open>A generator run to its end: the items it yielded, in order, and the exception
  that ended it, if one did. Whatever was yielded before the exception has reached
  the consumer.\<close>

type_synonym 'a gen = "'a list \<times> error option"

definition gen_cons :: "'a \<Rightarrow> 'a gen \<Rightarrow> 'a gen" where
  "gen_cons x g = (x # fst g, snd g)"

definition gen_append :: "'a list \<Rightarrow> 'a gen \<Rightarrow> 'a gen" where
  "gen_append xs g = (xs @ fst g, snd g)"

type_synonym datetime = int

subsection \<open>The data: \<^verbatim>\<open>Debate\<close> and \<^verbatim>\<open>Podcast\<close>\<close>

text \<open>The two named tuples of the module (lines 53 and 63). The fields \<^verbatim>\<open>url\<close> and
  \<^verbatim>\<open>type\<close> of \<^verbatim>\<open>Podcast\<close> are \<open>url_p\<close> and \<open>type_p\<close> here. \<open>duration\<close> is the text
  of the attribute, as line 201 stores it.\<close>

datatype Debate = Debate (url: string) (last_modified: datetime)

datatype Podcast =
  Podcast (title: string) (desc: string) (pubDate: "datetime option")
    (url_p: string) (type_p: string) (duration: string)

subsection \<open>The document tree of BeautifulSoup\<close>

text \<open>A parsed document: tags with their attributes and contents, strings
  (\<^verbatim>\<open>NavigableString\<close>, \<^verbatim>\<open>CData\<close>) and the other string-like nodes (comments,
  declarations, processing instructions), which \<^verbatim>\<open>.string\<close> returns and
  \<^verbatim>\<open>.stripped_strings\<close> leaves out. The soup itself is the tag that holds the document.\<close>

datatype node =
  Text string
  | Special string
  | Tag string "(string \<times> string) list" "node list"

fun subtree :: "node \<Rightarrow> node list" where
  "subtree (Tag n a cs) = Tag n a cs # concat (map subtree cs)"
| "subtree (Text s) = [Text s]"
| "subtree (Special s) = [Special s]"

text \<open>\<^verbatim>\<open>tag.descendants\<close>: everything below a tag, in document order.\<close>

fun descendants :: "node \<Rightarrow> node list" where
  "descendants (Tag n a cs) = concat (map subtree cs)"
| "descendants (Text s) = []"
| "descendants (Special s) = []"

text \<open>\<^verbatim>\<open>tag.get(key)\<close> and \<^verbatim>\<open>tag[key]\<close>; the latter raises \<^verbatim>\<open>KeyError\<close>.\<close>

fun get_attr :: "node \<Rightarrow> string \<Rightarrow> string option" where
  "get_attr (Tag n a cs) k = map_of a k"
| "get_attr (Text s) k = None"
| "get_attr (Special s) k = None"

fun get_item :: "node \<Rightarrow> string \<Rightarrow> error + string" where
  "get_item (Tag n a cs) k = (case map_of a k of None \<Rightarrow> Inl KeyError | Some v \<Rightarrow> Inr v)"
| "get_item (Text s) k = Inl TypeError"
| "get_item (Special s) k = Inl TypeError"

text \<open>Whitespace in the ASCII range, as \<^verbatim>\<open>str.isspace\<close> has it.\<close>

definition isspace :: "char \<Rightarrow> bool" where
  "isspace c = ((of_char c :: nat) \<in> {9, 10, 11, 12, 13, 28, 29, 30, 31, 32})"

text \<open>The values of a multi-valued attribute: the maximal runs of non-whitespace.\<close>

fun split_ws :: "string \<Rightarrow> string \<Rightarrow> string list" where
  "split_ws cur [] = (if cur = [] then [] else [cur])"
| "split_ws cur (c # cs) =
     (if isspace c then (if cur = [] then split_ws [] cs else cur # split_ws [] cs)
      else split_ws (cur @ [c]) cs)"

text \<open>\<^verbatim>\<open>s.strip()\<close>.\<close>

definition py_strip :: "string \<Rightarrow> string" where
  "py_strip s = rev (dropWhile isspace (rev (dropWhile isspace s)))"

text \<open>The search criteria the script uses: a tag name, \<^verbatim>\<open>id=\<close>, \<^verbatim>\<open>property=\<close>
  (the attribute equals the string) and \<^verbatim>\<open>class_=\<close> (one of the values of the class
  attribute equals the string).\<close>

fun is_named :: "string \<Rightarrow> node \<Rightarrow> bool" where
  "is_named nm (Tag n a cs) = (n = nm)"
| "is_named nm (Text s) = False"
| "is_named nm (Special s) = False"

fun is_tag :: "node \<Rightarrow> bool" where
  "is_tag (Tag n a cs) = True"
| "is_tag (Text s) = False"
| "is_tag (Special s) = False"

definition has_attr :: "string \<Rightarrow> string \<Rightarrow> node \<Rightarrow> bool" where
  "has_attr k v n = (is_tag n \<and> get_attr n k = Some v)"

definition has_class :: "string \<Rightarrow> node \<Rightarrow> bool" where
  "has_class c n =
     (is_tag n \<and> (case get_attr n ''class'' of None \<Rightarrow> False | Some v \<Rightarrow> c \<in> set (split_ws [] v)))"

text \<open>\<^verbatim>\<open>tag.find_all(...)\<close> and \<^verbatim>\<open>tag.find(...)\<close> (here \<open>find_tag\<close>); \<^verbatim>\<open>tag.loc\<close> is
  \<^verbatim>\<open>tag.find("loc")\<close>.\<close>

definition find_all :: "(node \<Rightarrow> bool) \<Rightarrow> node \<Rightarrow> node list" where
  "find_all crit n = filter crit (descendants n)"

definition find_tag :: "(node \<Rightarrow> bool) \<Rightarrow> node \<Rightarrow> node option" where
  "find_tag crit n = (case find_all crit n of [] \<Rightarrow> None | x # xs \<Rightarrow> Some x)"

text \<open>\<^verbatim>\<open>tag.string\<close>: the one string below a tag with exactly one child, through
  any chain of only children; \<^verbatim>\<open>None\<close> otherwise.\<close>

fun tag_string :: "node \<Rightarrow> string option" where
  "tag_string (Text s) = Some s"
| "tag_string (Special s) = Some s"
| "tag_string (Tag n a cs) = (case cs of [c] \<Rightarrow> tag_string c | _ \<Rightarrow> None)"

text \<open>\<^verbatim>\<open>unicode(x)\<close> of a string or \<^verbatim>\<open>None\<close>.\<close>

definition unicode :: "string option \<Rightarrow> string" where
  "unicode x = (case x of None \<Rightarrow> ''None'' | Some s \<Rightarrow> s)"

fun texts :: "node list \<Rightarrow> string list" where
  "texts [] = []"
| "texts (Text s # ns) = s # texts ns"
| "texts (n # ns) = texts ns"

text \<open>\<^verbatim>\<open>tag.stripped_strings\<close>.\<close>

definition stripped_strings :: "node \<Rightarrow> string list" where
  "stripped_strings n = filter (\<lambda>s. s \<noteq> []) (map py_strip (texts (descendants n)))"

subsection \<open>What the script is given\<close>

text \<open>The network and the library functions that the script calls and that are not
  part of it:
  \<^item> \<open>fetch_soup u\<close>: the tree \<^verbatim>\<open>bs4.BeautifulSoup(body, "html.parser")\<close> of the body
    behind \<open>u\<close>, or the exception of \<^verbatim>\<open>open\<close>, \<^verbatim>\<open>session.get\<close> or
    \<^verbatim>\<open>raise_for_status\<close> (lines 139 to 157 and 221 to 236);
  \<^item> \<open>urlparse_path u\<close>: \<^verbatim>\<open>urlparse(u).path\<close>, or the \<^verbatim>\<open>ValueError\<close> of \<^verbatim>\<open>urlparse\<close>;
  \<^item> \<open>parse_date s\<close>: \<^verbatim>\<open>iso8601.parse_date(s)\<close>, \<open>None\<close> when it raises its
    \<^verbatim>\<open>ParseError\<close>, which is a \<^verbatim>\<open>ValueError\<close>;
  \<^item> \<open>content_length u\<close>: what \<^verbatim>\<open>_get_content_length(u, timeout, session)\<close> returns,
    as \<^verbatim>\<open>format\<close> prints it, or the exception it raises;
  \<^item> \<open>strftime_rfc822 t\<close>: the instant \<open>t\<close> in UTC under the format
    \<^verbatim>\<open>"%a, %d %b %Y %H:%M:%S -0000"\<close>.\<close>

record env =
  fetch_soup :: "string \<Rightarrow> error + node"
  urlparse_path :: "string \<Rightarrow> error + string"
  parse_date :: "string \<Rightarrow> datetime option"
  content_length :: "string \<Rightarrow> error + string"
  strftime_rfc822 :: "datetime \<Rightarrow> string"

text \<open>\<^verbatim>\<open>iso8601.parse_date\<close> of a value that may be \<^verbatim>\<open>None\<close>: not a string, so a
  \<^verbatim>\<open>ParseError\<close>.\<close>

definition parse_date_opt :: "env \<Rightarrow> string option \<Rightarrow> datetime option" where
  "parse_date_opt E x = (case x of None \<Rightarrow> None | Some s \<Rightarrow> parse_date E s)"


subsection \<open>\<^verbatim>\<open>find_podcasts\<close> (lines 122 to 201)\<close>

text \<open>Line 199: the arguments of \<^verbatim>\<open>Podcast(...)\<close> are evaluated from left to right;
  \<^verbatim>\<open>src.source\<close> is \<^verbatim>\<open>None\<close> when the audio tag holds no source tag, and subscripting
  \<^verbatim>\<open>None\<close> raises \<^verbatim>\<open>TypeError\<close>.\<close>

definition podcast_of_audio :: "string \<Rightarrow> datetime option \<Rightarrow> node \<Rightarrow> error + Podcast" where
  "podcast_of_audio dsc pub_date src =
     (case get_item src ''data-title'' of Inl e \<Rightarrow> Inl e | Inr t \<Rightarrow>
      (case find_tag (is_named ''source'') src of None \<Rightarrow> Inl TypeError | Some so \<Rightarrow>
       (case get_item so ''src'' of Inl e \<Rightarrow> Inl e | Inr u \<Rightarrow>
        (case get_item so ''type'' of Inl e \<Rightarrow> Inl e | Inr ty \<Rightarrow>
         (case get_item src ''data-duration'' of Inl e \<Rightarrow> Inl e | Inr du \<Rightarrow>
            Inr (Podcast t dsc pub_date u ty du))))))"

text \<open>Lines 195 to 197: the audio tags that the three nested loops visit, in the
  order in which they visit them.\<close>

definition nested_audio :: "node \<Rightarrow> node list" where
  "nested_audio soup =
     concat (map (\<lambda>elem.
       concat (map (\<lambda>podcast. find_all (is_named ''audio'') podcast)
         (find_all (has_class ''panoply-podcast'') elem)))
       (find_all (has_attr ''id'' ''debate-podcasts'') soup))"

fun audio_loop :: "string \<Rightarrow> datetime option \<Rightarrow> node list \<Rightarrow> Podcast gen" where
  "audio_loop dsc pub_date [] = ([], None)"
| "audio_loop dsc pub_date (src # rest) =
     (case podcast_of_audio dsc pub_date src of
        Inl e \<Rightarrow> ([], Some e)
      | Inr p \<Rightarrow> gen_cons p (audio_loop dsc pub_date rest))"

text \<open>Lines 163 to 170. \<^verbatim>\<open>pub_date_meta['content']\<close> raises \<^verbatim>\<open>KeyError\<close> outside
  of what the \<^verbatim>\<open>try\<close> catches.\<close>

definition page_pub_date :: "env \<Rightarrow> node \<Rightarrow> error + datetime option" where
  "page_pub_date E soup =
     (case find_tag (\<lambda>n. is_named ''meta'' n \<and> has_attr ''property'' ''article:published_time'' n) soup of
        None \<Rightarrow> Inr None
      | Some pub_date_meta \<Rightarrow>
         (case get_item pub_date_meta ''content'' of
            Inl e \<Rightarrow> Inl e
          | Inr c \<Rightarrow> Inr (parse_date E c)))"

text \<open>Lines 157 to 201, on the parsed page. Without a \<^verbatim>\<open>div\<close> of class \<^verbatim>\<open>details\<close>,
  line 160 reads an attribute of \<^verbatim>\<open>None\<close>: \<^verbatim>\<open>AttributeError\<close>.\<close>

definition scrape_podcasts :: "env \<Rightarrow> node \<Rightarrow> Podcast gen" where
  "scrape_podcasts E soup =
     (case find_tag (\<lambda>n. is_named ''div'' n \<and> has_class ''details'' n) soup of
        None \<Rightarrow> ([], Some AttributeError)
      | Some details \<Rightarrow>
         (let dsc = concat (stripped_strings details) in
          case page_pub_date E soup of
            Inl e \<Rightarrow> ([], Some e)
          | Inr pub_date \<Rightarrow> audio_loop dsc pub_date (nested_audio soup)))"

definition find_podcasts :: "env \<Rightarrow> string \<Rightarrow> Podcast gen" where
  "find_podcasts E u =
     (case fetch_soup E u of
        Inl e \<Rightarrow> ([], Some e)
      | Inr soup \<Rightarrow> scrape_podcasts E soup)"

subsection \<open>\<^verbatim>\<open>find_debates\<close> (lines 204 to 268)\<close>

definition debate_path :: string where
  "debate_path = ''/debates/''"

text \<open>\<^verbatim>\<open>datetime.datetime(1970, 1, 1, 0, 0, 0, 0, iso8601.UTC)\<close>.\<close>

definition epoch_utc :: datetime where
  "epoch_utc = 0"

text \<open>Lines 258 to 266.\<close>

definition lastmod_of :: "env \<Rightarrow> node \<Rightarrow> datetime" where
  "lastmod_of E urltag =
     (case find_tag (is_named ''lastmod'') urltag of
        Some lm \<Rightarrow>
          (case parse_date_opt E (tag_string lm) of
             Some d \<Rightarrow> d
           | None \<Rightarrow> epoch_utc)
      | None \<Rightarrow> epoch_utc)"

text \<open>The loop of lines 247 to 268 over the \<^verbatim>\<open>url\<close> tags.\<close>

fun debates_loop :: "env \<Rightarrow> node list \<Rightarrow> Debate gen" where
  "debates_loop E [] = ([], None)"
| "debates_loop E (urltag # rest) =
     (case find_tag (is_named ''loc'') urltag of
        None \<Rightarrow> debates_loop E rest
      | Some loc \<Rightarrow>
         (case urlparse_path E (unicode (tag_string loc)) of
            Inl e \<Rightarrow> ([], Some e)
          | Inr path \<Rightarrow>
             if take (length debate_path) path \<noteq> debate_path then debates_loop E rest
             else gen_cons (Debate (unicode (tag_string loc)) (lastmod_of E urltag))
                    (debates_loop E rest)))"

definition find_debates :: "env \<Rightarrow> string \<Rightarrow> Debate gen" where
  "find_debates E u =
     (case fetch_soup E u of
        Inl e \<Rightarrow> ([], Some e)
      | Inr soup \<Rightarrow> debates_loop E (find_all (is_named ''url'') soup))"

subsection \<open>The filters (lines 271 to 280 and, in \<^verbatim>\<open>main\<close>, 426 to 483)\<close>

definition all_debates :: "Debate gen \<Rightarrow> Debate gen" where
  "all_debates debates = debates"

definition all_podcasts :: "Debate \<Rightarrow> Podcast gen \<Rightarrow> Podcast gen" where
  "all_podcasts debate podcasts = podcasts"

text \<open>\<^verbatim>\<open>datetime - timedelta(days)\<close>: \<^verbatim>\<open>timedelta\<close> takes at most 999999999 days, and
  the result has a year from 1 to 9999; \<^verbatim>\<open>OverflowError\<close> otherwise.\<close>

definition datetime_min :: datetime where
  "datetime_min = - 62135596800000000"

definition datetime_max :: datetime where
  "datetime_max = 253402300799999999"

definition minus_days :: "datetime \<Rightarrow> int \<Rightarrow> error + datetime" where
  "minus_days t n =
     (if \<bar>n\<bar> > 999999999 then Inl OverflowError
      else if t - n * 86400000000 < datetime_min \<or> datetime_max < t - n * 86400000000
      then Inl OverflowError
      else Inr (t - n * 86400000000))"

text \<open>Lines 426 to 429: \<^verbatim>\<open>since\<close>, from \<^verbatim>\<open>args.since\<close> (\<^verbatim>\<open>None\<close> without the option)
  and the current time. \<^verbatim>\<open>if args.since:\<close> is false for \<^verbatim>\<open>None\<close> and for 0.\<close>

definition main_since :: "datetime \<Rightarrow> int option \<Rightarrow> error + datetime option" where
  "main_since now args_since =
     (case args_since of
        None \<Rightarrow> Inr None
      | Some n \<Rightarrow>
         if n = 0 then Inr None
         else (case minus_days now n of Inl e \<Rightarrow> Inl e | Inr s \<Rightarrow> Inr (Some s)))"

text \<open>Lines 430 to 434.\<close>

definition debate_filter_since :: "datetime \<Rightarrow> Debate gen \<Rightarrow> Debate gen" where
  "debate_filter_since since debates =
     (filter (\<lambda>debate. \<not> last_modified debate < since) (fst debates), snd debates)"

text \<open>Lines 430 to 437: the debate filter that \<^verbatim>\<open>main\<close> picks. The test
  \<^verbatim>\<open>if args.since:\<close> of lines 427 and 476 holds exactly when \<^verbatim>\<open>since\<close> is a
  \<^verbatim>\<open>datetime\<close>, and is written so here.\<close>

definition main_debate_filter :: "datetime option \<Rightarrow> Debate gen \<Rightarrow> Debate gen" where
  "main_debate_filter since =
     (case since of Some s \<Rightarrow> debate_filter_since s | None \<Rightarrow> all_debates)"

text \<open>The test of lines 456 and 468:
  \<^verbatim>\<open>since and podcast.pubDate and podcast.pubDate < since\<close>; a \<^verbatim>\<open>datetime\<close> is true.\<close>

definition too_old :: "datetime option \<Rightarrow> Podcast \<Rightarrow> bool" where
  "too_old since podcast =
     (case since of
        None \<Rightarrow> False
      | Some s \<Rightarrow> (case pubDate podcast of None \<Rightarrow> False | Some d \<Rightarrow> d < s))"

text \<open>\<^verbatim>\<open>max(xs, key=key)\<close> and \<^verbatim>\<open>min(xs, key=key)\<close> on a list with first element \<open>m\<close>:
  a later element replaces the current one only when its key is strictly greater
  (strictly less).\<close>

fun max_key :: "('a \<Rightarrow> 'k::linorder) \<Rightarrow> 'a \<Rightarrow> 'a list \<Rightarrow> 'a" where
  "max_key key m [] = m"
| "max_key key m (x # xs) = max_key key (if key x > key m then x else m) xs"

fun min_key :: "('a \<Rightarrow> 'k::linorder) \<Rightarrow> 'a \<Rightarrow> 'a list \<Rightarrow> 'a" where
  "min_key key m [] = m"
| "min_key key m (x # xs) = min_key key (if key x < key m then x else m) xs"

text \<open>Lines 452 to 460, the filter of \<^verbatim>\<open>--audio unedited\<close>. The loop reads all of
  \<^verbatim>\<open>podcasts\<close> before anything is yielded. The key is the field \<open>duration\<close>, a string:
  the order is that of strings.\<close>

definition podcast_filter_unedited :: "datetime option \<Rightarrow> Debate \<Rightarrow> Podcast gen \<Rightarrow> Podcast gen" where
  "podcast_filter_unedited since debate podcasts =
     (case snd podcasts of
        Some e \<Rightarrow> ([], Some e)
      | None \<Rightarrow>
         (case filter (\<lambda>podcast. \<not> too_old since podcast) (fst podcasts) of
            [] \<Rightarrow> ([], None)
          | p # podcast_list \<Rightarrow> ([max_key duration p podcast_list], None)))"

text \<open>Lines 464 to 472, the filter of \<^verbatim>\<open>--audio edited\<close>.\<close>

definition podcast_filter_edited :: "datetime option \<Rightarrow> Debate \<Rightarrow> Podcast gen \<Rightarrow> Podcast gen" where
  "podcast_filter_edited since debate podcasts =
     (case snd podcasts of
        Some e \<Rightarrow> ([], Some e)
      | None \<Rightarrow>
         (case filter (\<lambda>podcast. \<not> too_old since podcast) (fst podcasts) of
            [] \<Rightarrow> ([], None)
          | p # podcast_list \<Rightarrow> ([min_key duration p podcast_list], None)))"

text \<open>Lines 477 to 481, the filter of \<^verbatim>\<open>--audio all\<close> with \<^verbatim>\<open>--since\<close>.\<close>

definition podcast_filter_all_since :: "datetime \<Rightarrow> Debate \<Rightarrow> Podcast gen \<Rightarrow> Podcast gen" where
  "podcast_filter_all_since since debate podcasts =
     (filter (\<lambda>podcast. \<not> (case pubDate podcast of None \<Rightarrow> False | Some d \<Rightarrow> d < since))
        (fst podcasts), snd podcasts)"

datatype audio = All | Edited | Unedited

text \<open>Lines 449 to 483: the podcast filter that \<^verbatim>\<open>main\<close> picks.\<close>

definition main_podcast_filter ::
  "audio \<Rightarrow> datetime option \<Rightarrow> Debate \<Rightarrow> Podcast gen \<Rightarrow> Podcast gen" where
  "main_podcast_filter a since =
     (case a of
        Unedited \<Rightarrow> podcast_filter_unedited since
      | Edited \<Rightarrow> podcast_filter_edited since
      | All \<Rightarrow> (case since of Some s \<Rightarrow> podcast_filter_all_since s | None \<Rightarrow> all_podcasts))"

subsection \<open>\<^verbatim>\<open>find_debate_podcasts\<close> (lines 283 to 317)\<close>

text \<open>The loop of lines 305 to 317 over the debates that passed the debate filter.
  Only a \<^verbatim>\<open>RequestException\<close> is caught, and the loop goes on to the next debate; any
  other exception ends the generator. The pairs yielded before an exception stay
  yielded.\<close>

fun debate_podcasts_loop ::
  "env \<Rightarrow> (Debate \<Rightarrow> Podcast gen \<Rightarrow> Podcast gen) \<Rightarrow> Debate list \<Rightarrow> (Debate \<times> Podcast) gen" where
  "debate_podcasts_loop E podcast_filter [] = ([], None)"
| "debate_podcasts_loop E podcast_filter (debate # rest) =
     (case podcast_filter debate (find_podcasts E (url debate)) of
        (ps, None) \<Rightarrow>
          gen_append (map (Pair debate) ps) (debate_podcasts_loop E podcast_filter rest)
      | (ps, Some e) \<Rightarrow>
          if e = RequestException
          then gen_append (map (Pair debate) ps) (debate_podcasts_loop E podcast_filter rest)
          else (map (Pair debate) ps, Some e))"

text \<open>An exception of the debate generator (of \<^verbatim>\<open>find_debates\<close> behind the debate
  filter) is outside the \<^verbatim>\<open>try\<close> and ends the generator, after the debates that came
  before it.\<close>

definition find_debate_podcasts ::
  "env \<Rightarrow> string \<Rightarrow> (Debate gen \<Rightarrow> Debate gen) \<Rightarrow> (Debate \<Rightarrow> Podcast gen \<Rightarrow> Podcast gen)
     \<Rightarrow> (Debate \<times> Podcast) gen" where
  "find_debate_podcasts E u debate_filter podcast_filter =
     (case debate_filter (find_debates E u) of
        (debates, err) \<Rightarrow>
          (case debate_podcasts_loop E podcast_filter debates of
             (pairs, Some e) \<Rightarrow> (pairs, Some e)
           | (pairs, None) \<Rightarrow> (pairs, err)))"

subsection \<open>Ordering (lines 488 to 493)\<close>

text \<open>The key of the sort, and the date of an item (line 382):
  \<^verbatim>\<open>podcast.pubDate if podcast.pubDate else debate.last_modified\<close>.\<close>

definition effective_timestamp :: "Debate \<times> Podcast \<Rightarrow> datetime" where
  "effective_timestamp ent =
     (case pubDate (snd ent) of Some d \<Rightarrow> d | None \<Rightarrow> last_modified (fst ent))"

text \<open>\<^verbatim>\<open>sorted(xs, key=key, reverse=True)\<close>: the list is reversed, sorted by a stable
  ascending sort, and reversed again.\<close>

definition sorted_reverse :: "('a \<Rightarrow> 'k::linorder) \<Rightarrow> 'a list \<Rightarrow> 'a list" where
  "sorted_reverse key xs = rev (sort_key key (rev xs))"

text \<open>Lines 488 to 493. \<^verbatim>\<open>sorted\<close> reads all of the generator and returns a list:
  an exception of the generator leaves \<^verbatim>\<open>main\<close> there. Without the sort the
  generator is passed on as it is.\<close>

definition sort_stage ::
  "bool \<Rightarrow> (Debate \<times> Podcast) gen \<Rightarrow> error + (Debate \<times> Podcast) gen" where
  "sort_stage srt podcast_tuples =
     (if srt
      then (case snd podcast_tuples of
              Some e \<Rightarrow> Inl e
            | None \<Rightarrow> Inr (sorted_reverse effective_timestamp (fst podcast_tuples), None))
      else Inr podcast_tuples)"

subsection \<open>\<^verbatim>\<open>write_rss\<close> (lines 337 to 411)\<close>

text \<open>What is written to the file handle is the list of the strings of the
  \<^verbatim>\<open>fh.write\<close> calls, in order, with the exception that ended the writing, if any.\<close>

abbreviation nl :: string where
  "nl \<equiv> [CHR 0x0A]"

abbreviation dq :: string where
  "dq \<equiv> [CHR 0x22]"

text \<open>Lines 350 to 353.\<close>

definition base_url_of :: "string \<Rightarrow> string" where
  "base_url_of u =
     (if endswith u ''/sitemap.xml'' then take (length u - length ''sitemap.xml'') u else u)"

text \<open>The description of line 364; the three characters after \<open>America\<close> are not ASCII
  and stand here as the bytes of their UTF-8 encoding.\<close>

definition channel_description :: string where
  "channel_description =
     ''Intelligence Squared U.S. Debates bring Oxford-style debate to America ''
     @ [CHR 0xC3, CHR 0xA2, CHR 0xE2, CHR 0x82, CHR 0xAC, CHR 0xE2, CHR 0x80, CHR 0x9C]
     @ '' one motion, one moderator, two panelists for the motion and two against. ''
     @ ''From clean energy and the financial crisis, to the Middle East and the death of ''
     @ ''mainstream media, Intelligence Squared U.S. brings together the world''
     @ [CHR 0x27] @ ''s leading authorities on the day'' @ [CHR 0x27]
     @ ''s most important issues. Join the debate online and cast your vote for each ''
     @ ''topic at www.iq2us.org.''"

definition image_url :: string where
  "image_url =
     ''http://static.megaphone.fm/podcasts/bcc042ec-fb48-11e5-b604-930d2eb6cae2/image/''
     @ ''uploads_2F1482274927463-5ma333ntgbmg85er-552d6f3f61ced4ca865638c3f33802a3_2FIQ2-Panoply3.jpg''"

text \<open>Lines 360 to 376: the sixteen writes before the items.\<close>

definition rss_header :: "env \<Rightarrow> datetime \<Rightarrow> string \<Rightarrow> string \<Rightarrow> string list" where
  "rss_header E now u ttl =
     [ ''<?xml version='' @ dq @ ''1.0'' @ dq @ '' encoding='' @ dq @ ''UTF-8'' @ dq @ '' ?>'' @ nl,
       ''<rss version='' @ dq @ ''2.0'' @ dq @ '' xmlns:itunes='' @ dq
         @ ''http://www.itunes.com/dtds/podcast-1.0.dtd'' @ dq @ ''>'' @ nl,
       ''<channel>'' @ nl,
       ''  <title>'' @ cgi_escape ttl True @ ''</title>'' @ nl,
       ''  <description>'' @ channel_description @ ''</description>'' @ nl,
       ''  <link>'' @ base_url_of u @ ''</link>'' @ nl,
       ''  <language>en-us</language>'' @ nl,
       ''  <image>'' @ nl,
       ''    <url>'' @ image_url @ ''</url>'' @ nl,
       ''    <title>'' @ cgi_escape ttl True @ ''</title>'' @ nl,
       ''    <link>'' @ base_url_of u @ ''</link>'' @ nl,
       ''  </image>'' @ nl,
       ''  <lastBuildDate>'' @ strftime_rfc822 E now @ ''</lastBuildDate>'' @ nl,
       ''  <pubDate>'' @ strftime_rfc822 E now @ ''</pubDate>'' @ nl,
       ''  <generator>https://github.com/drafnel/iq2us-rss</generator>'' @ nl,
       ''  <docs>https://validator.w3.org/feed/docs/rss2.html</docs>'' @ nl,
       ''  <ttl>60</ttl>'' @ nl ]"

text \<open>Lines 384 to 393: the length of the enclosure. A \<^verbatim>\<open>RequestException\<close> gives 0, any
  other exception leaves \<^verbatim>\<open>write_rss\<close>.\<close>

definition item_content_length :: "env \<Rightarrow> bool \<Rightarrow> Podcast \<Rightarrow> error + string" where
  "item_content_length E get_content_length podcast =
     (if get_content_length
      then (case content_length E (url_p podcast) of
              Inr v \<Rightarrow> Inr v
            | Inl e \<Rightarrow> if e = RequestException then Inr ''0'' else Inl e)
      else Inr ''0'')"

text \<open>Lines 395 to 408: the eight writes of an item.\<close>

definition rss_item :: "env \<Rightarrow> Debate \<Rightarrow> Podcast \<Rightarrow> string \<Rightarrow> string list" where
  "rss_item E debate podcast cl =
     [ ''  <item>'' @ nl,
       ''    <title>'' @ cgi_escape (title podcast) True @ ''</title>'' @ nl,
       ''    <link>'' @ cgi_escape (url debate) True @ ''</link>'' @ nl,
       ''    <description>'' @ cgi_escape (desc podcast) True @ ''</description>'' @ nl,
       ''    <pubDate>'' @ strftime_rfc822 E (effective_timestamp (debate, podcast))
         @ ''</pubDate>'' @ nl,
       ''    <enclosure url='' @ dq @ url_p podcast @ dq @ '' length='' @ dq @ cl @ dq
         @ '' type='' @ dq @ type_p podcast @ dq @ '' />'' @ nl,
       ''    <itunes:duration>'' @ duration podcast @ ''</itunes:duration>'' @ nl,
       ''  </item>'' @ nl ]"

text \<open>The loop of lines 381 to 408.\<close>

fun write_items :: "env \<Rightarrow> bool \<Rightarrow> (Debate \<times> Podcast) list \<Rightarrow> string gen" where
  "write_items E get_content_length [] = ([], None)"
| "write_items E get_content_length (ent # rest) =
     (case item_content_length E get_content_length (snd ent) of
        Inl e \<Rightarrow> ([], Some e)
      | Inr cl \<Rightarrow>
          gen_append (rss_item E (fst ent) (snd ent) cl)
            (write_items E get_content_length rest))"

text \<open>\<^verbatim>\<open>write_rss(fh, url, title, podcast_tuples, get_content_length)\<close>. An exception
  of the generator \<^verbatim>\<open>podcast_tuples\<close> comes after the items of the pairs it yielded;
  the two closing writes happen only without an exception.\<close>

definition write_rss ::
  "env \<Rightarrow> datetime \<Rightarrow> string \<Rightarrow> string \<Rightarrow> (Debate \<times> Podcast) gen \<Rightarrow> bool \<Rightarrow> string gen" where
  "write_rss E now u ttl podcast_tuples get_content_length =
     (case write_items E get_content_length (fst podcast_tuples) of
        (items, Some e) \<Rightarrow> (rss_header E now u ttl @ items, Some e)
      | (items, None) \<Rightarrow>
          (case snd podcast_tuples of
             Some e \<Rightarrow> (rss_header E now u ttl @ items, Some e)
           | None \<Rightarrow>
               (rss_header E now u ttl @ items @ [''</channel>'' @ nl, ''</rss>'' @ nl], None)))"

subsection \<open>\<^verbatim>\<open>main\<close> (lines 414 to 499)\<close>

definition default_title :: string where
  "default_title = ''[unofficial] Intelligence Squared U.S. Debates''"

text \<open>Lines 450, 462 and 474: the suffix of a title left at its default.\<close>

definition main_title :: "audio \<Rightarrow> string \<Rightarrow> string" where
  "main_title a ttl =
     (if ttl = default_title
      then ttl @ (case a of Unedited \<Rightarrow> '' [unedited]'' | Edited \<Rightarrow> '' [edited]''
                  | All \<Rightarrow> '' [all-debates]'')
      else ttl)"

text \<open>The command line: \<^verbatim>\<open>--audio\<close>, \<^verbatim>\<open>--since\<close>, \<^verbatim>\<open>--sort\<close>/\<^verbatim>\<open>--no-sort\<close>, \<^verbatim>\<open>--title\<close>
  and the sitemap url.\<close>

record args =
  arg_audio :: audio
  arg_since :: "int option"
  arg_sort :: bool
  arg_title :: string
  arg_url :: string

text \<open>\<^verbatim>\<open>main\<close>: what it writes to the output. \<open>now\<close> is the time of line 428,
  \<open>now_rss\<close> that of line 355. An exception before \<^verbatim>\<open>write_rss\<close> is called leaves
  nothing written.\<close>

definition main :: "env \<Rightarrow> datetime \<Rightarrow> datetime \<Rightarrow> args \<Rightarrow> string gen" where
  "main E now now_rss a =
     (case main_since now (arg_since a) of
        Inl e \<Rightarrow> ([], Some e)
      | Inr since \<Rightarrow>
         (case sort_stage (arg_sort a)
                 (find_debate_podcasts E (arg_url a) (main_debate_filter since)
                    (main_podcast_filter (arg_audio a) since)) of
            Inl e \<Rightarrow> ([], Some e)
          | Inr podcast_tuples \<Rightarrow>
              write_rss E now_rss (arg_url a) (main_title (arg_audio a) (arg_title a))
                podcast_tuples True))"

subsection \<open>Auxiliary notions of the statements\<close>


text \<open>The number that a string of decimal digits denotes, \<^verbatim>\<open>int(s)\<close>: the duration in
  seconds that the documentation of \<^verbatim>\<open>Podcast\<close> (lines 76 and 77) speaks of.\<close>

definition int_of_digits :: "string \<Rightarrow> nat" where
  "int_of_digits s = foldl (\<lambda>a c. 10 * a + (of_char c - 48)) 0 s"

definition duration_seconds :: "Podcast \<Rightarrow> nat" where
  "duration_seconds p = int_of_digits (duration p)"

subsection \<open>Example inputs\<close>

text \<open>An environment without a network: every fetch fails, dates are not parsed.\<close>

definition env0 :: env where
  "env0 = \<lparr> fetch_soup = (\<lambda>u. Inl RequestException), urlparse_path = (\<lambda>u. Inr u),
            parse_date = (\<lambda>s. None), content_length = (\<lambda>u. Inr ''0''),
            strftime_rfc822 = (\<lambda>t. ''Thu, 01 Jan 1970 00:00:00 -0000'') \<rparr>"

text \<open>An audio tag as the comment of lines 172 to 194 shows it, with the given duration
  and title, and the block of a podcast around it.\<close>

definition audio_tag :: "string \<Rightarrow> string \<Rightarrow> node" where
  "audio_tag du t =
     Tag ''audio'' [(''data-duration'', du), (''data-title'', t), (''controls'', [])]
       [Tag ''source'' [(''src'', ''https://traffic.megaphone.fm/'' @ t @ ''.mp3''),
                        (''type'', ''audio/mpeg'')] []]"

definition podcast_block :: "node \<Rightarrow> node" where
  "podcast_block a =
     Tag ''div'' [(''class'', ''node node-podcast col col-4 t-col-3''), (''data-nid'', ''7085'')]
       [Tag ''div'' [(''class'', ''panoply-podcast'')]
         [Tag ''div'' [(''class'', ''bottom'')] [a]]]"

definition debate_page :: "node list \<Rightarrow> node" where
  "debate_page blocks =
     Tag ''[document]'' []
       [Tag ''div'' [(''class'', ''details'')] [Text '' A debate. ''],
        Tag ''div'' [(''id'', ''debate-podcasts'')] [Tag ''div'' [(''class'', ''wrapper'')] blocks]]"

text \<open>A page with an edited recording of 999 seconds and an unedited one of 1000.\<close>

definition page_999_1000 :: node where
  "page_999_1000 =
     debate_page [podcast_block (audio_tag ''999'' ''edited''),
                  podcast_block (audio_tag ''1000'' ''unedited'')]"

text \<open>A page whose one audio tag, inside the blocks, holds no \<^verbatim>\<open>source\<close> tag.\<close>

definition page_no_source :: node where
  "page_no_source =
     debate_page [podcast_block
       (Tag ''audio'' [(''data-duration'', ''3042''), (''data-title'', ''t'')] [])]"

text \<open>A page with an audio tag outside the blocks, next to a well-formed one.\<close>

definition page_stray_audio :: node where
  "page_stray_audio =
     Tag ''[document]'' []
       [Tag ''div'' [(''class'', ''details'')] [Text ''d''],
        Tag ''audio'' [] [],
        Tag ''div'' [(''id'', ''debate-podcasts'')] [podcast_block (audio_tag ''3042'' ''t'')]]"

text \<open>A sitemap with a page that is not a debate and two debates, the first with a
  \<^verbatim>\<open>lastmod\<close> that is no date, the second without \<^verbatim>\<open>lastmod\<close>.\<close>

definition sitemap0 :: node where
  "sitemap0 =
     Tag ''[document]'' []
       [Tag ''urlset'' []
         [Tag ''url'' [] [Tag ''loc'' [] [Text ''/about'']],
          Tag ''url'' [] [Tag ''loc'' [] [Text ''/debates/a''],
                          Tag ''lastmod'' [] [Text ''yesterday'']],
          Tag ''url'' [] [Tag ''loc'' [] [Text ''/debates/b'']]]]"

text \<open>An environment in which the sitemap and the page of the debate \<open>b\<close> can be
  fetched and the page of the debate \<open>a\<close> cannot.\<close>

definition env1 :: env where
  "env1 = env0 \<lparr> fetch_soup :=
     (\<lambda>u. if u = ''/sitemap.xml'' then Inr sitemap0
          else if u = ''/debates/b'' then Inr page_999_1000
          else Inl RequestException) \<rparr>"

section \<open>Properties\<close>

subsection \<open>Escaping\<close>















subsection \<open>The links of the channel\<close>

lemma endswith_append: "endswith (b @ t) t"
  by (simp add: endswith_def)

lemma take_without_suffix: "take (length (x @ y) - length y) (x @ y) = x"
  by simp

lemma base_url_of_sitemap: "base_url_of (b @ ''/sitemap.xml'') = b @ ''/''"
proof -
  have "take (length ((b @ ''/'') @ ''sitemap.xml'') - length ''sitemap.xml'')
          ((b @ ''/'') @ ''sitemap.xml'') = b @ ''/''"
    by (rule take_without_suffix)
  then show ?thesis
    using endswith_append [of b "''/sitemap.xml''"] by (simp add: base_url_of_def)
qed

lemma write_rss_header_prefix:
  "\<exists>rest. fst (write_rss E now u ttl podcast_tuples gcl) = rss_header E now u ttl @ rest"
  by (simp add: write_rss_def split: prod.splits option.splits)

lemma length_rss_header: "length (rss_header E now u ttl) = 17"
  by (simp add: rss_header_def)

text \<open>C10. Whatever the sitemap url is, \<^verbatim>\<open>write_rss\<close> writes the home-page url derived
  from it (the url without a trailing \<^verbatim>\<open>sitemap.xml\<close> after a slash, else the url as it
  is) into the \<^verbatim>\<open><link>\<close> of the channel and into the \<^verbatim>\<open><link>\<close> of the image as it
  stands, with no escaping, whereas the \<^verbatim>\<open><link>\<close> of an item is the debate url
  escaped by \<^verbatim>\<open>cgi.escape\<close>.\<close>

theorem channel_links_verbatim:
  "fst (write_rss E now u ttl podcast_tuples gcl) ! 5 = ''  <link>'' @ base_url_of u @ ''</link>'' @ nl
   \<and> fst (write_rss E now u ttl podcast_tuples gcl) ! 10
       = ''    <link>'' @ base_url_of u @ ''</link>'' @ nl
   \<and> base_url_of (b @ ''/sitemap.xml'') = b @ ''/''
   \<and> (\<not> endswith u ''/sitemap.xml'' \<longrightarrow> base_url_of u = u)
   \<and> rss_item E debate podcast cl ! 2
       = ''    <link>'' @ cgi_escape (url debate) True @ ''</link>'' @ nl"
proof -
  obtain rest where r: "fst (write_rss E now u ttl podcast_tuples gcl) = rss_header E now u ttl @ rest"
    using write_rss_header_prefix by blast
  have "(rss_header E now u ttl @ rest) ! 5 = rss_header E now u ttl ! 5"
    "(rss_header E now u ttl @ rest) ! 10 = rss_header E now u ttl ! 10"
    by (simp_all add: nth_append length_rss_header)
  moreover have "\<not> endswith u ''/sitemap.xml'' \<longrightarrow> base_url_of u = u"
    by (simp add: base_url_of_def)
  ultimately show ?thesis
    unfolding r by (simp add: rss_header_def rss_item_def base_url_of_sitemap)
qed

theorem channel_links_verbatim_witness:
  "\<not> endswith ''http://h/?a&b'' ''/sitemap.xml''
   \<and> fst (write_rss env0 0 ''http://h/?a&b'' ''T'' ([], None) True) ! 5
       = ''  <link>http://h/?a&b</link>'' @ nl
   \<and> fst (write_rss env0 0 ''http://h/?a&b'' ''T'' ([], None) True) ! 10
       = ''    <link>http://h/?a&b</link>'' @ nl
   \<and> rss_item env0 (Debate ''http://h/?a&b'' 0) (Podcast ''t'' ''d'' None ''a'' ''m'' ''1'') ''0'' ! 2
       = ''    <link>http://h/?a&amp;b</link>'' @ nl"
  using channel_links_verbatim [of env0 0 "''http://h/?a&b''" "''T''" "([], None)" True "[]"
      "Debate ''http://h/?a&b'' 0" "Podcast ''t'' ''d'' None ''a'' ''m'' ''1''" "''0''"]
  by (simp add: endswith_def cgi_escape_def str_replace1_def)

subsection \<open>Ordering\<close>

lemma sorted_reverse_nonincreasing:
  "sorted_wrt (\<lambda>a b. key a \<ge> key b) (sorted_reverse key xs)"
proof -
  have "sorted (map key (sort_key key (rev xs)))"
    by (rule sorted_sort_key)
  then have "sorted_wrt (\<lambda>a b. key a \<le> key b) (sort_key key (rev xs))"
    by (simp add: sorted_wrt_map)
  then show ?thesis
    by (simp add: sorted_reverse_def sorted_wrt_rev)
qed

lemma mset_sorted_reverse: "mset (sorted_reverse key xs) = mset xs"
  by (simp add: sorted_reverse_def)

text \<open>C4. With the sort, the pairs that reach \<^verbatim>\<open>write_rss\<close> are the pairs of the
  orchestrator (the same pairs, as often), in an order in which the effective timestamp
  (the podcast's \<^verbatim>\<open>pubDate\<close> when it has one, else the debate's \<^verbatim>\<open>last_modified\<close>)
  never increases. Without the sort the sequence of the orchestrator is passed on
  unchanged.\<close>

theorem sort_stage_order:
  "(snd g = None \<longrightarrow>
      (\<exists>xs. sort_stage True g = Inr (xs, None)
         \<and> sorted_wrt (\<lambda>a b. effective_timestamp a \<ge> effective_timestamp b) xs
         \<and> mset xs = mset (fst g)))
   \<and> effective_timestamp (debate, podcast)
       = (case pubDate podcast of Some d \<Rightarrow> d | None \<Rightarrow> last_modified debate)
   \<and> sort_stage False g = Inr g"
proof -
  have a: "snd g = None \<longrightarrow>
      (\<exists>xs. sort_stage True g = Inr (xs, None)
         \<and> sorted_wrt (\<lambda>a b. effective_timestamp a \<ge> effective_timestamp b) xs
         \<and> mset xs = mset (fst g))"
    by (simp add: sort_stage_def sorted_reverse_nonincreasing mset_sorted_reverse)
  have b: "effective_timestamp (debate, podcast)
       = (case pubDate podcast of Some d \<Rightarrow> d | None \<Rightarrow> last_modified debate)"
    by (simp add: effective_timestamp_def split: option.splits)
  have c: "sort_stage False g = Inr g"
    by (simp add: sort_stage_def)
  show ?thesis
    by (rule conjI [OF a conjI [OF b c]])
qed

theorem sort_stage_order_witness:
  "snd ([(Debate ''a'' 5, Podcast ''t'' ''d'' None ''u'' ''m'' ''1''),
         (Debate ''b'' 9, Podcast ''t'' ''d'' (Some 7) ''u'' ''m'' ''1''),
         (Debate ''c'' 6, Podcast ''t'' ''d'' None ''u'' ''m'' ''1'')], None :: error option) = None
   \<and> sort_stage True
        ([(Debate ''a'' 5, Podcast ''t'' ''d'' None ''u'' ''m'' ''1''),
          (Debate ''b'' 9, Podcast ''t'' ''d'' (Some 7) ''u'' ''m'' ''1''),
          (Debate ''c'' 6, Podcast ''t'' ''d'' None ''u'' ''m'' ''1'')], None)
       = Inr ([(Debate ''b'' 9, Podcast ''t'' ''d'' (Some 7) ''u'' ''m'' ''1''),
               (Debate ''c'' 6, Podcast ''t'' ''d'' None ''u'' ''m'' ''1''),
               (Debate ''a'' 5, Podcast ''t'' ''d'' None ''u'' ''m'' ''1'')], None)
   \<and> sort_stage False
        ([(Debate ''a'' 5, Podcast ''t'' ''d'' None ''u'' ''m'' ''1''),
          (Debate ''b'' 9, Podcast ''t'' ''d'' (Some 7) ''u'' ''m'' ''1'')], None)
       = Inr ([(Debate ''a'' 5, Podcast ''t'' ''d'' None ''u'' ''m'' ''1''),
               (Debate ''b'' 9, Podcast ''t'' ''d'' (Some 7) ''u'' ''m'' ''1'')], None)"
  using sort_stage_order [of "([(Debate ''a'' 5, Podcast ''t'' ''d'' None ''u'' ''m'' ''1''),
         (Debate ''b'' 9, Podcast ''t'' ''d'' (Some 7) ''u'' ''m'' ''1''),
         (Debate ''c'' 6, Podcast ''t'' ''d'' None ''u'' ''m'' ''1'')], None)"]
  by (simp add: sort_stage_def sorted_reverse_def effective_timestamp_def)

subsection \<open>The age cutoff\<close>

lemma main_since_cases:
  "main_since now args_since = Inr since \<Longrightarrow>
     (since = None \<and> (args_since = None \<or> args_since = Some 0))
     \<or> (\<exists>n. args_since = Some n \<and> n \<noteq> 0 \<and> since = Some (now - n * 86400000000))"
  by (auto simp: main_since_def minus_days_def split: option.splits if_splits)

lemma too_old_Some:
  "too_old (Some s) p \<longleftrightarrow> (\<exists>t. pubDate p = Some t \<and> t < s)"
  by (simp add: too_old_def split: option.splits)

lemma podcast_filter_all_since_too_old:
  "podcast_filter_all_since s d g = (filter (\<lambda>p. \<not> too_old (Some s) p) (fst g), snd g)"
  by (simp add: podcast_filter_all_since_def too_old_def)

lemma max_key_in: "max_key key m xs \<in> set (m # xs)"
  by (induction xs arbitrary: m) auto

lemma min_key_in: "min_key key m xs \<in> set (m # xs)"
  by (induction xs arbitrary: m) auto

lemma unedited_yields:
  "podcast_filter_unedited since d (ps, None) = (qs, err) \<Longrightarrow>
     err = None \<and> length qs \<le> 1 \<and> set qs \<subseteq> {p \<in> set ps. \<not> too_old since p}
     \<and> (qs = [] \<longleftrightarrow> (\<forall>p \<in> set ps. too_old since p))"
proof -
  assume a: "podcast_filter_unedited since d (ps, None) = (qs, err)"
  show ?thesis
  proof (cases "filter (\<lambda>p. \<not> too_old since p) ps")
    case Nil
    then have "\<forall>p \<in> set ps. too_old since p"
      by (simp add: filter_empty_conv)
    with a Nil show ?thesis
      by (simp add: podcast_filter_unedited_def)
  next
    case (Cons p l)
    have "max_key duration p l \<in> set (p # l)"
      by (rule max_key_in)
    then have "max_key duration p l \<in> set (filter (\<lambda>p. \<not> too_old since p) ps)"
      by (simp only: Cons)
    then have m: "max_key duration p l \<in> set ps \<and> \<not> too_old since (max_key duration p l)"
      by simp
    have ne: "\<not> (\<forall>p \<in> set ps. too_old since p)"
      using Cons by (metis filter_empty_conv list.distinct(1))
    have "qs = [max_key duration p l] \<and> err = None"
      using a Cons by (simp add: podcast_filter_unedited_def)
    with m ne show ?thesis
      by simp
  qed
qed

lemma edited_yields:
  "podcast_filter_edited since d (ps, None) = (qs, err) \<Longrightarrow>
     err = None \<and> length qs \<le> 1 \<and> set qs \<subseteq> {p \<in> set ps. \<not> too_old since p}
     \<and> (qs = [] \<longleftrightarrow> (\<forall>p \<in> set ps. too_old since p))"
proof -
  assume a: "podcast_filter_edited since d (ps, None) = (qs, err)"
  show ?thesis
  proof (cases "filter (\<lambda>p. \<not> too_old since p) ps")
    case Nil
    then have "\<forall>p \<in> set ps. too_old since p"
      by (simp add: filter_empty_conv)
    with a Nil show ?thesis
      by (simp add: podcast_filter_edited_def)
  next
    case (Cons p l)
    have "min_key duration p l \<in> set (p # l)"
      by (rule min_key_in)
    then have "min_key duration p l \<in> set (filter (\<lambda>p. \<not> too_old since p) ps)"
      by (simp only: Cons)
    then have m: "min_key duration p l \<in> set ps \<and> \<not> too_old since (min_key duration p l)"
      by simp
    have ne: "\<not> (\<forall>p \<in> set ps. too_old since p)"
      using Cons by (metis filter_empty_conv list.distinct(1))
    have "qs = [min_key duration p l] \<and> err = None"
      using a Cons by (simp add: podcast_filter_edited_def)
    with m ne show ?thesis
      by simp
  qed
qed

text \<open>C5. With \<^verbatim>\<open>--since N\<close> in effect (\<open>N\<close> not 0, and \<open>now\<close> minus \<open>N\<close> days a date
  that \<^verbatim>\<open>datetime\<close> can hold), the cutoff is \<open>now\<close> minus \<open>N\<close> days, and the podcast
  filter of each mode lets a podcast through its age test exactly when the podcast does
  not have a publish date strictly before the cutoff; a podcast without a publish date
  always passes. In the mode \<^verbatim>\<open>all\<close> the podcasts yielded are exactly those that pass; in
  the modes \<^verbatim>\<open>unedited\<close> and \<^verbatim>\<open>edited\<close> the one podcast yielded is among those that
  pass, and none is yielded exactly when none passes.\<close>

theorem since_excludes_dated_older_podcasts:
  assumes "main_since now (Some n) = Inr since" and "n \<noteq> 0"
  shows "since = Some (now - n * 86400000000)
    \<and> (too_old since p \<longleftrightarrow> (\<exists>t. pubDate p = Some t \<and> t < now - n * 86400000000))
    \<and> (pubDate p = None \<longrightarrow> \<not> too_old since p)
    \<and> main_podcast_filter All since d g = (filter (\<lambda>p. \<not> too_old since p) (fst g), snd g)
    \<and> (\<forall>a \<in> {Unedited, Edited}.
         \<exists>qs. main_podcast_filter a since d (ps, None) = (qs, None)
            \<and> length qs \<le> 1
            \<and> set qs \<subseteq> {p \<in> set ps. \<not> too_old since p}
            \<and> (qs = [] \<longleftrightarrow> (\<forall>p \<in> set ps. too_old since p)))"
proof -
  from main_since_cases [OF assms(1)] assms(2)
  have s: "since = Some (now - n * 86400000000)"
    by blast
  have t: "too_old since p \<longleftrightarrow> (\<exists>t. pubDate p = Some t \<and> t < now - n * 86400000000)"
    unfolding s by (rule too_old_Some)
  have nd: "pubDate p = None \<longrightarrow> \<not> too_old since p"
    by (simp add: too_old_def split: option.splits)
  have a: "main_podcast_filter All since d g = (filter (\<lambda>p. \<not> too_old since p) (fst g), snd g)"
    unfolding s by (simp add: main_podcast_filter_def podcast_filter_all_since_too_old)
  have u: "\<exists>qs. main_podcast_filter Unedited since d (ps, None) = (qs, None)
            \<and> length qs \<le> 1
            \<and> set qs \<subseteq> {p \<in> set ps. \<not> too_old since p}
            \<and> (qs = [] \<longleftrightarrow> (\<forall>p \<in> set ps. too_old since p))"
    using unedited_yields [of since d ps]
    by (cases "podcast_filter_unedited since d (ps, None)")
      (simp add: main_podcast_filter_def)
  have e: "\<exists>qs. main_podcast_filter Edited since d (ps, None) = (qs, None)
            \<and> length qs \<le> 1
            \<and> set qs \<subseteq> {p \<in> set ps. \<not> too_old since p}
            \<and> (qs = [] \<longleftrightarrow> (\<forall>p \<in> set ps. too_old since p))"
    using edited_yields [of since d ps]
    by (cases "podcast_filter_edited since d (ps, None)")
      (simp add: main_podcast_filter_def)
  have ue: "\<forall>a \<in> {Unedited, Edited}.
         \<exists>qs. main_podcast_filter a since d (ps, None) = (qs, None)
            \<and> length qs \<le> 1
            \<and> set qs \<subseteq> {p \<in> set ps. \<not> too_old since p}
            \<and> (qs = [] \<longleftrightarrow> (\<forall>p \<in> set ps. too_old since p))"
  proof
    fix a
    assume "a \<in> {Unedited, Edited}"
    then consider "a = Unedited" | "a = Edited"
      by blast
    then show "\<exists>qs. main_podcast_filter a since d (ps, None) = (qs, None)
            \<and> length qs \<le> 1
            \<and> set qs \<subseteq> {p \<in> set ps. \<not> too_old since p}
            \<and> (qs = [] \<longleftrightarrow> (\<forall>p \<in> set ps. too_old since p))"
    proof cases
      case 1
      show ?thesis unfolding 1 by (rule u)
    next
      case 2
      show ?thesis unfolding 2 by (rule e)
    qed
  qed
  show ?thesis
    by (rule conjI [OF s conjI [OF t conjI [OF nd conjI [OF a ue]]]])
qed

theorem since_excludes_dated_older_podcasts_witness:
  "main_since 1000000000000 (Some 1) = Inr (Some 913600000000) \<and> (1::int) \<noteq> 0
   \<and> too_old (Some 913600000000) (Podcast ''old'' ''d'' (Some 913599999999) ''u'' ''m'' ''9'')
   \<and> \<not> too_old (Some 913600000000) (Podcast ''new'' ''d'' (Some 913600000000) ''u'' ''m'' ''5'')
   \<and> \<not> too_old (Some 913600000000) (Podcast ''undated'' ''d'' None ''u'' ''m'' ''7'')
   \<and> main_podcast_filter All (Some 913600000000) (Debate ''a'' 0)
        ([Podcast ''old'' ''d'' (Some 913599999999) ''u'' ''m'' ''9'',
          Podcast ''new'' ''d'' (Some 913600000000) ''u'' ''m'' ''5'',
          Podcast ''undated'' ''d'' None ''u'' ''m'' ''7''], None)
       = ([Podcast ''new'' ''d'' (Some 913600000000) ''u'' ''m'' ''5'',
           Podcast ''undated'' ''d'' None ''u'' ''m'' ''7''], None)
   \<and> main_podcast_filter Unedited (Some 913600000000) (Debate ''a'' 0)
        ([Podcast ''old'' ''d'' (Some 913599999999) ''u'' ''m'' ''9'',
          Podcast ''new'' ''d'' (Some 913600000000) ''u'' ''m'' ''5'',
          Podcast ''undated'' ''d'' None ''u'' ''m'' ''7''], None)
       = ([Podcast ''undated'' ''d'' None ''u'' ''m'' ''7''], None)"
proof -
  have h: "main_since 1000000000000 (Some 1) = Inr (Some 913600000000)"
    by (simp add: main_since_def minus_days_def datetime_min_def datetime_max_def)
  have n: "(1::int) \<noteq> 0"
    by simp
  show ?thesis
    using since_excludes_dated_older_podcasts [OF h n,
        of "Podcast ''old'' ''d'' (Some 913599999999) ''u'' ''m'' ''9''" "Debate ''a'' 0"
        "([Podcast ''old'' ''d'' (Some 913599999999) ''u'' ''m'' ''9'',
          Podcast ''new'' ''d'' (Some 913600000000) ''u'' ''m'' ''5'',
          Podcast ''undated'' ''d'' None ''u'' ''m'' ''7''], None)"
        "[Podcast ''old'' ''d'' (Some 913599999999) ''u'' ''m'' ''9'',
          Podcast ''new'' ''d'' (Some 913600000000) ''u'' ''m'' ''5'',
          Podcast ''undated'' ''d'' None ''u'' ''m'' ''7'']"] h
    by (simp add: too_old_def main_podcast_filter_def podcast_filter_all_since_def
        podcast_filter_unedited_def)
qed

text \<open>C9. \<^verbatim>\<open>--since 0\<close> gives the same \<^verbatim>\<open>since\<close> as no \<^verbatim>\<open>--since\<close> at all, namely
  \<^verbatim>\<open>None\<close>: the debate filter is \<^verbatim>\<open>all_debates\<close> and lets every debate through, no
  podcast fails the age test of the podcast filters, the filter of the mode \<^verbatim>\<open>all\<close> is
  \<^verbatim>\<open>all_podcasts\<close>, and the whole run writes what it writes without the option.\<close>

theorem since_zero_is_no_cutoff:
  "main_since now (Some 0) = Inr None
   \<and> main_since now None = Inr None
   \<and> main_debate_filter None debates = debates
   \<and> \<not> too_old None podcast
   \<and> main_podcast_filter All None debate podcasts = podcasts
   \<and> main E now now_rss (a\<lparr>arg_since := Some 0\<rparr>) = main E now now_rss (a\<lparr>arg_since := None\<rparr>)"
  by (simp add: main_since_def main_debate_filter_def all_debates_def too_old_def
      main_podcast_filter_def all_podcasts_def main_def split: sum.splits)

theorem since_zero_is_no_cutoff_witness:
  "main_since 1000000000000 (Some 0) = Inr None
   \<and> main_debate_filter None ([Debate ''a'' 0], None) = ([Debate ''a'' 0], None)
   \<and> main_podcast_filter Unedited None (Debate ''a'' 0)
        ([Podcast ''old'' ''d'' (Some 5) ''u'' ''m'' ''9''], None)
       = ([Podcast ''old'' ''d'' (Some 5) ''u'' ''m'' ''9''], None)"
  using since_zero_is_no_cutoff [of 1000000000000 "([Debate ''a'' 0], None)"
      "Podcast ''old'' ''d'' (Some 5) ''u'' ''m'' ''9''" "Debate ''a'' 0"
      "([Podcast ''old'' ''d'' (Some 5) ''u'' ''m'' ''9''], None)"]
  by (simp add: main_podcast_filter_def podcast_filter_unedited_def)

subsection \<open>The sitemap\<close>

lemma gen_append_Nil: "gen_append [] g = g"
  by (simp add: gen_append_def)

lemma debates_loop_append:
  "debates_loop E (xs @ ys) =
     (case debates_loop E xs of
        (ds, None) \<Rightarrow> gen_append ds (debates_loop E ys)
      | (ds, Some e) \<Rightarrow> (ds, Some e))"
proof (induction xs)
  case Nil
  show ?case by (simp add: gen_append_Nil)
next
  case (Cons urltag xs)
  then show ?case
    by (cases "debates_loop E xs")
      (simp add: gen_cons_def gen_append_def split: option.splits sum.splits)
qed

lemma debates_loop_epoch:
  assumes "find_tag (is_named ''loc'') urltag = Some loc"
    and "urlparse_path E (unicode (tag_string loc)) = Inr path"
    and "take (length debate_path) path = debate_path"
    and "find_tag (is_named ''lastmod'') urltag = None
         \<or> (\<exists>lm. find_tag (is_named ''lastmod'') urltag = Some lm
               \<and> parse_date_opt E (tag_string lm) = None)"
  shows "debates_loop E (urltag # rest)
         = gen_cons (Debate (unicode (tag_string loc)) 0) (debates_loop E rest)"
proof -
  from assms(4) have "lastmod_of E urltag = 0"
    by (auto simp: lastmod_of_def epoch_utc_def)
  with assms(1-3) show ?thesis
    by simp
qed

text \<open>C6. For a \<^verbatim>\<open><url>\<close> entry of the sitemap whose \<^verbatim>\<open><loc>\<close> has a path that
  starts with \<^verbatim>\<open>/debates/\<close> and whose \<^verbatim>\<open><lastmod>\<close> is absent or is not parsed by
  \<^verbatim>\<open>iso8601.parse_date\<close>, \<^verbatim>\<open>find_debates\<close> yields the debate with \<^verbatim>\<open>last_modified\<close>
  equal to 1970-01-01T00:00:00+00:00 (the instant 0) and goes on with the entries that
  follow: the entry raises nothing, also when it stands after other entries.\<close>

theorem lastmod_fallback_epoch:
  assumes "find_tag (is_named ''loc'') urltag = Some loc"
    and "urlparse_path E (unicode (tag_string loc)) = Inr path"
    and "take (length debate_path) path = debate_path"
    and "find_tag (is_named ''lastmod'') urltag = None
         \<or> (\<exists>lm. find_tag (is_named ''lastmod'') urltag = Some lm
               \<and> parse_date_opt E (tag_string lm) = None)"
  shows "debates_loop E (urltag # rest)
           = gen_cons (Debate (unicode (tag_string loc)) epoch_utc) (debates_loop E rest)
    \<and> epoch_utc = 0
    \<and> (snd (debates_loop E before) = None \<longrightarrow>
         debates_loop E (before @ urltag # rest)
           = gen_append (fst (debates_loop E before))
               (gen_cons (Debate (unicode (tag_string loc)) epoch_utc) (debates_loop E rest)))"
proof -
  have step: "debates_loop E (urltag # rest)
           = gen_cons (Debate (unicode (tag_string loc)) 0) (debates_loop E rest)"
    using assms by (rule debates_loop_epoch)
  have "snd (debates_loop E before) = None \<longrightarrow>
         debates_loop E (before @ urltag # rest)
           = gen_append (fst (debates_loop E before)) (debates_loop E (urltag # rest))"
    by (cases "debates_loop E before") (simp add: debates_loop_append)
  with step show ?thesis
    by (simp add: epoch_utc_def)
qed

theorem lastmod_fallback_epoch_witness:
  "find_debates env1 ''/sitemap.xml''
     = ([Debate ''/debates/a'' 0, Debate ''/debates/b'' 0], None)
   \<and> debates_loop env1
        [Tag ''url'' [] [Tag ''loc'' [] [Text ''/debates/a''],
                         Tag ''lastmod'' [] [Text ''yesterday'']],
         Tag ''url'' [] [Tag ''loc'' [] [Text ''/debates/b'']]]
     = gen_cons (Debate ''/debates/a'' 0)
         (debates_loop env1 [Tag ''url'' [] [Tag ''loc'' [] [Text ''/debates/b'']]])"
proof -
  let ?u = "Tag ''url'' [] [Tag ''loc'' [] [Text ''/debates/a''],
                         Tag ''lastmod'' [] [Text ''yesterday'']]"
  have 1: "find_tag (is_named ''loc'') ?u = Some (Tag ''loc'' [] [Text ''/debates/a''])"
    by (simp add: find_tag_def find_all_def)
  have 2: "urlparse_path env1 (unicode (tag_string (Tag ''loc'' [] [Text ''/debates/a''])))
           = Inr ''/debates/a''"
    by (simp add: env1_def env0_def unicode_def)
  have 3: "take (length debate_path) ''/debates/a'' = debate_path"
    by (simp add: debate_path_def)
  have 4: "find_tag (is_named ''lastmod'') ?u = None
         \<or> (\<exists>lm. find_tag (is_named ''lastmod'') ?u = Some lm
               \<and> parse_date_opt env1 (tag_string lm) = None)"
    by (simp add: find_tag_def find_all_def parse_date_opt_def env1_def env0_def)
  have "find_debates env1 ''/sitemap.xml''
     = ([Debate ''/debates/a'' 0, Debate ''/debates/b'' 0], None)"
    by (simp add: find_debates_def env1_def env0_def sitemap0_def find_all_def find_tag_def
        unicode_def debate_path_def lastmod_of_def parse_date_opt_def epoch_utc_def
        gen_cons_def)
  moreover have "debates_loop env1 [?u, Tag ''url'' [] [Tag ''loc'' [] [Text ''/debates/b'']]]
     = gen_cons (Debate ''/debates/a'' 0)
         (debates_loop env1 [Tag ''url'' [] [Tag ''loc'' [] [Text ''/debates/b'']]])"
    using lastmod_fallback_epoch [OF 1 2 3 4,
        of "[Tag ''url'' [] [Tag ''loc'' [] [Text ''/debates/b'']]]" "[]"]
    by (simp add: epoch_utc_def unicode_def del: debates_loop.simps)
  ultimately show ?thesis
    by (rule conjI)
qed

subsection \<open>The orchestrator\<close>

lemma find_podcasts_fetch_failure:
  "fetch_soup E u = Inl e \<Longrightarrow> find_podcasts E u = ([], Some e)"
  by (simp add: find_podcasts_def)

lemma main_podcast_filter_exception:
  "main_podcast_filter a since d ([], Some e) = ([], Some e)"
  by (simp add: main_podcast_filter_def podcast_filter_unedited_def podcast_filter_edited_def
      podcast_filter_all_since_def all_podcasts_def split: audio.splits option.splits)

lemma debate_podcasts_loop_append:
  "debate_podcasts_loop E pf (xs @ ys) =
     (case debate_podcasts_loop E pf xs of
        (ps, None) \<Rightarrow> gen_append ps (debate_podcasts_loop E pf ys)
      | (ps, Some e) \<Rightarrow> (ps, Some e))"
proof (induction xs)
  case Nil
  show ?case by (simp add: gen_append_Nil)
next
  case (Cons d xs)
  then show ?case
    by (cases "debate_podcasts_loop E pf xs"; cases "pf d (find_podcasts E (url d))")
      (simp add: gen_append_def split: option.splits)
qed

lemma debate_podcasts_loop_skip:
  assumes "fetch_soup E (url debate) = Inl RequestException"
  shows "debate_podcasts_loop E (main_podcast_filter a since) (debate # rest)
         = debate_podcasts_loop E (main_podcast_filter a since) rest"
  using assms
  by (simp add: find_podcasts_fetch_failure main_podcast_filter_exception gen_append_Nil)

lemma debate_podcasts_loop_skip_middle:
  assumes "fetch_soup E (url debate) = Inl RequestException"
  shows "debate_podcasts_loop E (main_podcast_filter a since) (before @ debate # rest)
         = debate_podcasts_loop E (main_podcast_filter a since) (before @ rest)"
  by (simp only: debate_podcasts_loop_append [of E _ before]
      debate_podcasts_loop_skip [OF assms])

lemma main_podcast_filter_yields_from:
  "p \<in> set (fst (main_podcast_filter a since d g)) \<Longrightarrow> p \<in> set (fst g)"
proof (cases a)
  case All
  assume "p \<in> set (fst (main_podcast_filter a since d g))"
  with All show ?thesis
    by (simp add: main_podcast_filter_def podcast_filter_all_since_def all_podcasts_def
        split: option.splits)
next
  case Edited
  assume p: "p \<in> set (fst (main_podcast_filter a since d g))"
  show ?thesis
  proof (cases g)
    case (Pair ps err)
    show ?thesis
    proof (cases err)
      case None
      obtain qs e where q: "podcast_filter_edited since d (ps, None) = (qs, e)"
        by (cases "podcast_filter_edited since d (ps, None)")
      from edited_yields [OF q] p Edited Pair None q show ?thesis
        by (auto simp: main_podcast_filter_def)
    next
      case (Some e)
      with p Edited Pair show ?thesis
        by (simp add: main_podcast_filter_def podcast_filter_edited_def)
    qed
  qed
next
  case Unedited
  assume p: "p \<in> set (fst (main_podcast_filter a since d g))"
  show ?thesis
  proof (cases g)
    case (Pair ps err)
    show ?thesis
    proof (cases err)
      case None
      obtain qs e where q: "podcast_filter_unedited since d (ps, None) = (qs, e)"
        by (cases "podcast_filter_unedited since d (ps, None)")
      from unedited_yields [OF q] p Unedited Pair None q show ?thesis
        by (auto simp: main_podcast_filter_def)
    next
      case (Some e)
      with p Unedited Pair show ?thesis
        by (simp add: main_podcast_filter_def podcast_filter_unedited_def)
    qed
  qed
qed

lemma debate_podcasts_loop_pairs:
  "(d, p) \<in> set (fst (debate_podcasts_loop E pf ds)) \<Longrightarrow>
     p \<in> set (fst (pf d (find_podcasts E (url d))))"
proof (induction ds)
  case Nil
  then show ?case by simp
next
  case (Cons x ds)
  then show ?case
    by (cases "pf x (find_podcasts E (url x))")
      (auto simp: gen_append_def split: option.splits if_splits)
qed

lemma pairs_have_fetched_pages:
  assumes "(d, p) \<in> set (fst (debate_podcasts_loop E (main_podcast_filter a since) ds))"
  shows "\<exists>soup. fetch_soup E (url d) = Inr soup"
proof (cases "fetch_soup E (url d)")
  case (Inl e)
  from debate_podcasts_loop_pairs [OF assms]
  have "p \<in> set (fst (find_podcasts E (url d)))"
    by (rule main_podcast_filter_yields_from)
  with Inl show ?thesis
    by (simp add: find_podcasts_fetch_failure)
next
  case (Inr soup)
  then show ?thesis by simp
qed

lemma fst_find_debate_podcasts:
  "fst (find_debate_podcasts E u df pf)
   = fst (debate_podcasts_loop E pf (fst (df (find_debates E u))))"
  by (simp add: find_debate_podcasts_def split: prod.splits option.splits)

text \<open>C3. With the filters of \<^verbatim>\<open>main\<close> (the default filters among them): when the
  fetch of a debate's page raises a \<^verbatim>\<open>RequestException\<close>, the orchestrator yields what
  it yields without that debate, so the debates after it are still processed, and no
  pair of the result belongs to a debate with that url. When the fetch of the sitemap
  raises, whatever the exception, the orchestrator ends with that exception and has
  yielded no pair.\<close>

theorem page_failure_skipped_sitemap_failure_fatal:
  "(fetch_soup E (url debate) = Inl RequestException \<longrightarrow>
      debate_podcasts_loop E (main_podcast_filter a since) (before @ debate # rest)
        = debate_podcasts_loop E (main_podcast_filter a since) (before @ rest)
      \<and> (main_debate_filter since (find_debates E u) = (before @ debate # rest, err) \<longrightarrow>
           find_debate_podcasts E u (main_debate_filter since) (main_podcast_filter a since)
           = (case debate_podcasts_loop E (main_podcast_filter a since) (before @ rest) of
                (pairs, Some e) \<Rightarrow> (pairs, Some e)
              | (pairs, None) \<Rightarrow> (pairs, err)))
      \<and> (\<forall>ent \<in> set (fst (find_debate_podcasts E u (main_debate_filter since)
                             (main_podcast_filter a since))).
           url (fst ent) \<noteq> url debate))
   \<and> (fetch_soup E u = Inl e \<longrightarrow>
        find_debate_podcasts E u (main_debate_filter since) (main_podcast_filter a since)
        = ([], Some e))"
proof -
  have sitemap: "fetch_soup E u = Inl e \<longrightarrow>
        find_debate_podcasts E u (main_debate_filter since) (main_podcast_filter a since)
        = ([], Some e)"
    by (simp add: find_debate_podcasts_def find_debates_def main_debate_filter_def
        debate_filter_since_def all_debates_def split: option.splits)
  have page: "debate_podcasts_loop E (main_podcast_filter a since) (before @ debate # rest)
        = debate_podcasts_loop E (main_podcast_filter a since) (before @ rest)
      \<and> (main_debate_filter since (find_debates E u) = (before @ debate # rest, err) \<longrightarrow>
           find_debate_podcasts E u (main_debate_filter since) (main_podcast_filter a since)
           = (case debate_podcasts_loop E (main_podcast_filter a since) (before @ rest) of
                (pairs, Some e) \<Rightarrow> (pairs, Some e)
              | (pairs, None) \<Rightarrow> (pairs, err)))
      \<and> (\<forall>ent \<in> set (fst (find_debate_podcasts E u (main_debate_filter since)
                             (main_podcast_filter a since))).
           url (fst ent) \<noteq> url debate)"
    if f: "fetch_soup E (url debate) = Inl RequestException"
  proof -
    have skip: "debate_podcasts_loop E (main_podcast_filter a since) (before @ debate # rest)
        = debate_podcasts_loop E (main_podcast_filter a since) (before @ rest)"
      using f by (rule debate_podcasts_loop_skip_middle)
    have none: "url (fst ent) \<noteq> url debate"
      if "ent \<in> set (fst (find_debate_podcasts E u (main_debate_filter since)
                             (main_podcast_filter a since)))" for ent
    proof -
      from that have "(fst ent, snd ent) \<in> set (fst (debate_podcasts_loop E
          (main_podcast_filter a since) (fst (main_debate_filter since (find_debates E u)))))"
        by (simp add: fst_find_debate_podcasts)
      then obtain soup where "fetch_soup E (url (fst ent)) = Inr soup"
        using pairs_have_fetched_pages by blast
      with f show ?thesis
        by auto
    qed
    from skip none show ?thesis
      by (simp add: find_debate_podcasts_def)
  qed
  from sitemap page show ?thesis
    by blast
qed

theorem page_failure_skipped_sitemap_failure_fatal_witness:
  "fetch_soup env1 (url (Debate ''/debates/a'' 0)) = Inl RequestException
   \<and> main_debate_filter None (find_debates env1 ''/sitemap.xml'')
       = ([] @ Debate ''/debates/a'' 0 # [Debate ''/debates/b'' 0], None)
   \<and> find_debate_podcasts env1 ''/sitemap.xml'' (main_debate_filter None)
        (main_podcast_filter Edited None)
       = ([(Debate ''/debates/b'' 0,
            Podcast ''unedited'' ''A debate.'' None ''https://traffic.megaphone.fm/unedited.mp3''
              ''audio/mpeg'' ''1000'')], None)
   \<and> fetch_soup env0 ''/sitemap.xml'' = Inl RequestException
   \<and> find_debate_podcasts env0 ''/sitemap.xml'' (main_debate_filter None)
        (main_podcast_filter Edited None)
       = ([], Some RequestException)"
proof -
  have d: "find_debates env1 ''/sitemap.xml''
     = ([Debate ''/debates/a'' 0, Debate ''/debates/b'' 0], None)"
    by (simp add: find_debates_def env1_def env0_def sitemap0_def find_all_def find_tag_def
        unicode_def debate_path_def lastmod_of_def parse_date_opt_def epoch_utc_def
        gen_cons_def)
  have b: "find_podcasts env1 ''/debates/b''
     = ([Podcast ''edited'' ''A debate.'' None ''https://traffic.megaphone.fm/edited.mp3''
           ''audio/mpeg'' ''999'',
         Podcast ''unedited'' ''A debate.'' None ''https://traffic.megaphone.fm/unedited.mp3''
           ''audio/mpeg'' ''1000''], None)"
    by code_simp
  have l: "debate_podcasts_loop env1 (main_podcast_filter Edited None) [Debate ''/debates/b'' 0]
     = ([(Debate ''/debates/b'' 0,
            Podcast ''unedited'' ''A debate.'' None ''https://traffic.megaphone.fm/unedited.mp3''
              ''audio/mpeg'' ''1000'')], None)"
    by (simp add: b main_podcast_filter_def podcast_filter_edited_def too_old_def
        gen_append_def)
  have f: "fetch_soup env1 (url (Debate ''/debates/a'' 0)) = Inl RequestException"
    by (simp add: env1_def env0_def)
  have m: "main_debate_filter None (find_debates env1 ''/sitemap.xml'')
       = ([] @ Debate ''/debates/a'' 0 # [Debate ''/debates/b'' 0], None)"
    by (simp add: d main_debate_filter_def all_debates_def)
  have f0: "fetch_soup env0 ''/sitemap.xml'' = Inl RequestException"
    by (simp add: env0_def)
  from page_failure_skipped_sitemap_failure_fatal
    [of env1 "Debate ''/debates/a'' 0" Edited None "[]" "[Debate ''/debates/b'' 0]"
      "''/sitemap.xml''" None RequestException] f m l
  have 1: "find_debate_podcasts env1 ''/sitemap.xml'' (main_debate_filter None)
        (main_podcast_filter Edited None)
       = ([(Debate ''/debates/b'' 0,
            Podcast ''unedited'' ''A debate.'' None ''https://traffic.megaphone.fm/unedited.mp3''
              ''audio/mpeg'' ''1000'')], None)"
    by simp
  from page_failure_skipped_sitemap_failure_fatal
    [of env0 "Debate ''/debates/a'' 0" Edited None "[]" "[]"
      "''/sitemap.xml''" None RequestException] f0
  have 2: "find_debate_podcasts env0 ''/sitemap.xml'' (main_debate_filter None)
        (main_podcast_filter Edited None) = ([], Some RequestException)"
    by simp
  from f m 1 f0 2 show ?thesis
    by (intro conjI)
qed

subsection \<open>The scan of a debate page\<close>

lemma audio_loop_yields_from:
  "p \<in> set (fst (audio_loop dsc pd srcs)) \<Longrightarrow>
     \<exists>src \<in> set srcs. podcast_of_audio dsc pd src = Inr p"
proof (induction srcs)
  case Nil
  then show ?case by simp
next
  case (Cons src srcs)
  then show ?case
    by (cases "podcast_of_audio dsc pd src") (auto simp: gen_cons_def)
qed

lemma audio_loop_raises_from:
  "snd (audio_loop dsc pd srcs) = Some e \<Longrightarrow>
     \<exists>src \<in> set srcs. podcast_of_audio dsc pd src = Inl e"
proof (induction srcs)
  case Nil
  then show ?case by simp
next
  case (Cons src srcs)
  then show ?case
    by (cases "podcast_of_audio dsc pd src") (auto simp: gen_cons_def)
qed

lemma audio_loop_all_good:
  "\<forall>src \<in> set srcs. \<exists>p. podcast_of_audio dsc pd src = Inr p \<Longrightarrow>
     snd (audio_loop dsc pd srcs) = None
     \<and> length (fst (audio_loop dsc pd srcs)) = length srcs"
  by (induction srcs) (auto simp: gen_cons_def)

lemma audio_loop_one_bad:
  "\<exists>src \<in> set srcs. \<exists>e. podcast_of_audio dsc pd src = Inl e \<Longrightarrow>
     snd (audio_loop dsc pd srcs) \<noteq> None"
proof (induction srcs)
  case Nil
  then show ?case by simp
next
  case (Cons src srcs)
  then show ?case
    by (cases "podcast_of_audio dsc pd src") (auto simp: gen_cons_def)
qed

lemma set_nested_audio:
  "set (nested_audio soup) =
     {a. is_named ''audio'' a \<and>
         (\<exists>elem podcast. elem \<in> set (descendants soup) \<and> has_attr ''id'' ''debate-podcasts'' elem
            \<and> podcast \<in> set (descendants elem) \<and> has_class ''panoply-podcast'' podcast
            \<and> a \<in> set (descendants podcast))}"
  by (auto simp: nested_audio_def find_all_def)

lemma podcast_of_audio_no_source:
  "get_item src ''data-title'' = Inr t \<Longrightarrow> find_tag (is_named ''source'') src = None \<Longrightarrow>
     podcast_of_audio dsc pd src = Inl TypeError"
  by (simp add: podcast_of_audio_def)

lemma scrape_podcasts_scan:
  assumes "find_tag (\<lambda>n. is_named ''div'' n \<and> has_class ''details'' n) soup = Some details"
    and "page_pub_date E soup = Inr pd"
  shows "scrape_podcasts E soup
         = audio_loop (concat (stripped_strings details)) pd (nested_audio soup)"
  using assms by (simp add: scrape_podcasts_def)

text \<open>C2, as the code has it. An audio element that does not lie inside an element of
  class \<^verbatim>\<open>panoply-podcast\<close> inside an element with the id \<^verbatim>\<open>debate-podcasts\<close> is
  skipped silently: on a page with its description block and a readable publish date,
  every \<^verbatim>\<open>Podcast\<close> that \<^verbatim>\<open>find_podcasts\<close> emits and every exception that its scan
  raises comes from an audio element inside that nesting, and when every audio element
  inside the nesting has its \<^verbatim>\<open>source\<close> sub-element and its attributes the scan raises
  nothing and emits one \<^verbatim>\<open>Podcast\<close> for each. An audio element inside the nesting
  that lacks them is not skipped: the scan raises there (\<^verbatim>\<open>TypeError\<close> without a
  \<^verbatim>\<open>source\<close> sub-element).\<close>

theorem audio_outside_nesting_skipped:
  assumes "find_tag (\<lambda>n. is_named ''div'' n \<and> has_class ''details'' n) soup = Some details"
    and "page_pub_date E soup = Inr pd"
  shows "set (nested_audio soup) =
     {a. is_named ''audio'' a \<and>
         (\<exists>elem podcast. elem \<in> set (descendants soup) \<and> has_attr ''id'' ''debate-podcasts'' elem
            \<and> podcast \<in> set (descendants elem) \<and> has_class ''panoply-podcast'' podcast
            \<and> a \<in> set (descendants podcast))}
    \<and> (\<forall>p \<in> set (fst (scrape_podcasts E soup)).
          \<exists>src \<in> set (nested_audio soup).
            podcast_of_audio (concat (stripped_strings details)) pd src = Inr p)
    \<and> (\<forall>e. snd (scrape_podcasts E soup) = Some e \<longrightarrow>
          (\<exists>src \<in> set (nested_audio soup).
            podcast_of_audio (concat (stripped_strings details)) pd src = Inl e))
    \<and> ((\<forall>src \<in> set (nested_audio soup).
           \<exists>p. podcast_of_audio (concat (stripped_strings details)) pd src = Inr p) \<longrightarrow>
         snd (scrape_podcasts E soup) = None
         \<and> length (fst (scrape_podcasts E soup)) = length (nested_audio soup))
    \<and> ((\<exists>src \<in> set (nested_audio soup).
           \<exists>e. podcast_of_audio (concat (stripped_strings details)) pd src = Inl e) \<longrightarrow>
         snd (scrape_podcasts E soup) \<noteq> None)
    \<and> (\<forall>src t. get_item src ''data-title'' = Inr t
           \<and> find_tag (is_named ''source'') src = None \<longrightarrow>
         podcast_of_audio (concat (stripped_strings details)) pd src = Inl TypeError)"
proof -
  let ?dsc = "concat (stripped_strings details)"
  have s: "scrape_podcasts E soup = audio_loop ?dsc pd (nested_audio soup)"
    using assms by (rule scrape_podcasts_scan)
  have 1: "\<forall>p \<in> set (fst (scrape_podcasts E soup)).
          \<exists>src \<in> set (nested_audio soup). podcast_of_audio ?dsc pd src = Inr p"
    unfolding s using audio_loop_yields_from by blast
  have 2: "\<forall>e. snd (scrape_podcasts E soup) = Some e \<longrightarrow>
          (\<exists>src \<in> set (nested_audio soup). podcast_of_audio ?dsc pd src = Inl e)"
    unfolding s using audio_loop_raises_from by blast
  have 3: "(\<forall>src \<in> set (nested_audio soup). \<exists>p. podcast_of_audio ?dsc pd src = Inr p) \<longrightarrow>
         snd (scrape_podcasts E soup) = None
         \<and> length (fst (scrape_podcasts E soup)) = length (nested_audio soup)"
    unfolding s using audio_loop_all_good by blast
  have 4: "(\<exists>src \<in> set (nested_audio soup). \<exists>e. podcast_of_audio ?dsc pd src = Inl e) \<longrightarrow>
         snd (scrape_podcasts E soup) \<noteq> None"
    unfolding s using audio_loop_one_bad by blast
  have 5: "\<forall>src t. get_item src ''data-title'' = Inr t
           \<and> find_tag (is_named ''source'') src = None \<longrightarrow>
         podcast_of_audio ?dsc pd src = Inl TypeError"
    using podcast_of_audio_no_source by blast
  show ?thesis
    by (rule conjI [OF set_nested_audio conjI [OF 1 conjI [OF 2 conjI [OF 3 conjI [OF 4 5]]]]])
qed

theorem audio_outside_nesting_skipped_witness:
  "find_tag (\<lambda>n. is_named ''div'' n \<and> has_class ''details'' n) page_stray_audio
     = Some (Tag ''div'' [(''class'', ''details'')] [Text ''d''])
   \<and> page_pub_date env0 page_stray_audio = Inr None
   \<and> Tag ''audio'' [] [] \<in> set (descendants page_stray_audio)
   \<and> nested_audio page_stray_audio = [audio_tag ''3042'' ''t'']
   \<and> snd (scrape_podcasts env0 page_stray_audio) = None
   \<and> length (fst (scrape_podcasts env0 page_stray_audio)) = 1"
proof -
  have 1: "find_tag (\<lambda>n. is_named ''div'' n \<and> has_class ''details'' n) page_stray_audio
     = Some (Tag ''div'' [(''class'', ''details'')] [Text ''d''])"
    by code_simp
  have 2: "page_pub_date env0 page_stray_audio = Inr None"
    by code_simp
  have 3: "Tag ''audio'' [] [] \<in> set (descendants page_stray_audio)"
    by (simp add: page_stray_audio_def)
  have 4: "nested_audio page_stray_audio = [audio_tag ''3042'' ''t'']"
    by code_simp
  have 5: "podcast_of_audio (concat (stripped_strings (Tag ''div'' [(''class'', ''details'')] [Text ''d''])))
             None (audio_tag ''3042'' ''t'')
           = Inr (Podcast ''t'' ''d'' None ''https://traffic.megaphone.fm/t.mp3'' ''audio/mpeg'' ''3042'')"
    by code_simp
  from audio_outside_nesting_skipped [OF 1 2] 4 5
  have "snd (scrape_podcasts env0 page_stray_audio) = None
         \<and> length (fst (scrape_podcasts env0 page_stray_audio)) = 1"
    by simp
  with 1 2 3 4 show ?thesis
    by (intro conjI) simp_all
qed

text \<open>C2 as the specification states it fails on a page whose audio element,
  inside the two blocks, holds no \<^verbatim>\<open>source\<close> element: the element does not match
  the nesting that the claim describes, and \<^verbatim>\<open>find_podcasts\<close> raises \<^verbatim>\<open>TypeError\<close>.\<close>

theorem audio_without_source_raises:
  "nested_audio page_no_source
     = [Tag ''audio'' [(''data-duration'', ''3042''), (''data-title'', ''t'')] []]
   \<and> find_tag (is_named ''source'')
        (Tag ''audio'' [(''data-duration'', ''3042''), (''data-title'', ''t'')] []) = None
   \<and> scrape_podcasts env0 page_no_source = ([], Some TypeError)
   \<and> find_podcasts (env0 \<lparr> fetch_soup := (\<lambda>u. Inr page_no_source) \<rparr>) ''/debates/a''
       = ([], Some TypeError)"
  by code_simp

subsection \<open>The duration\<close>

lemma podcast_of_audio_duration:
  "podcast_of_audio dsc pd src = Inr p \<Longrightarrow> get_attr src ''data-duration'' = Some (duration p)"
  by (cases src) (auto simp: podcast_of_audio_def split: sum.splits option.splits)

lemma max_key_above_start: "key m \<le> key (max_key key m xs)"
proof (induction xs arbitrary: m)
  case Nil
  show ?case by simp
next
  case (Cons y ys)
  have "key m \<le> key (if key y > key m then y else m)"
    by (auto simp: not_less less_imp_le)
  also have "\<dots> \<le> key (max_key key (if key y > key m then y else m) ys)"
    by (rule Cons.IH)
  finally show ?case
    by simp
qed

lemma max_key_above_rest: "x \<in> set xs \<Longrightarrow> key x \<le> key (max_key key m xs)"
proof (induction xs arbitrary: m)
  case Nil
  then show ?case by simp
next
  case (Cons y ys)
  show ?case
  proof (cases "x = y")
    case True
    have "key y \<le> key (if key y > key m then y else m)"
      by (auto simp: not_less less_imp_le)
    also have "\<dots> \<le> key (max_key key (if key y > key m then y else m) ys)"
      by (rule max_key_above_start)
    finally show ?thesis
      using True by simp
  next
    case False
    with Cons.prems have "x \<in> set ys"
      by simp
    then have "key x \<le> key (max_key key (if key y > key m then y else m) ys)"
      by (rule Cons.IH)
    then show ?thesis
      by simp
  qed
qed

lemma max_key_greatest: "x \<in> set (m # xs) \<Longrightarrow> key x \<le> key (max_key key m xs)"
  using max_key_above_start [of key m xs] max_key_above_rest [of x xs key m] by auto

lemma min_key_below_start: "key (min_key key m xs) \<le> key m"
proof (induction xs arbitrary: m)
  case Nil
  show ?case by simp
next
  case (Cons y ys)
  have "key (min_key key (if key y < key m then y else m) ys)
          \<le> key (if key y < key m then y else m)"
    by (rule Cons.IH)
  also have "\<dots> \<le> key m"
    by (auto simp: not_less less_imp_le)
  finally show ?case
    by simp
qed

lemma min_key_below_rest: "x \<in> set xs \<Longrightarrow> key (min_key key m xs) \<le> key x"
proof (induction xs arbitrary: m)
  case Nil
  then show ?case by simp
next
  case (Cons y ys)
  show ?case
  proof (cases "x = y")
    case True
    have "key (min_key key (if key y < key m then y else m) ys)
            \<le> key (if key y < key m then y else m)"
      by (rule min_key_below_start)
    also have "\<dots> \<le> key y"
      by (auto simp: not_less less_imp_le)
    finally show ?thesis
      using True by simp
  next
    case False
    with Cons.prems have "x \<in> set ys"
      by simp
    then have "key (min_key key (if key y < key m then y else m) ys) \<le> key x"
      by (rule Cons.IH)
    then show ?thesis
      by simp
  qed
qed

lemma min_key_least: "x \<in> set (m # xs) \<Longrightarrow> key (min_key key m xs) \<le> key x"
  using min_key_below_start [of key m xs] min_key_below_rest [of x xs key m] by auto

lemma unedited_greatest_string:
  assumes "podcast_filter_unedited since d (ps, None) = ([q], None)"
    and "p \<in> set ps" and "\<not> too_old since p"
  shows "duration p \<le> duration q"
proof (cases "filter (\<lambda>p. \<not> too_old since p) ps")
  case Nil
  with assms(1) show ?thesis
    by (simp add: podcast_filter_unedited_def)
next
  case (Cons m l)
  with assms(1) have q: "q = max_key duration m l"
    by (simp add: podcast_filter_unedited_def)
  from assms(2,3) have "p \<in> set (filter (\<lambda>p. \<not> too_old since p) ps)"
    by simp
  then have "p \<in> set (m # l)"
    by (simp only: Cons)
  then show ?thesis
    unfolding q by (rule max_key_greatest)
qed

lemma edited_least_string:
  assumes "podcast_filter_edited since d (ps, None) = ([q], None)"
    and "p \<in> set ps" and "\<not> too_old since p"
  shows "duration q \<le> duration p"
proof (cases "filter (\<lambda>p. \<not> too_old since p) ps")
  case Nil
  with assms(1) show ?thesis
    by (simp add: podcast_filter_edited_def)
next
  case (Cons m l)
  with assms(1) have q: "q = min_key duration m l"
    by (simp add: podcast_filter_edited_def)
  from assms(2,3) have "p \<in> set (filter (\<lambda>p. \<not> too_old since p) ps)"
    by simp
  then have "p \<in> set (m # l)"
    by (simp only: Cons)
  then show ?thesis
    unfolding q by (rule min_key_least)
qed

lemma scrape_podcasts_yields_from:
  assumes "p \<in> set (fst (scrape_podcasts E soup))"
  shows "\<exists>src \<in> set (nested_audio soup). \<exists>dsc pd. podcast_of_audio dsc pd src = Inr p"
proof (cases "find_tag (\<lambda>n. is_named ''div'' n \<and> has_class ''details'' n) soup")
  case None
  with assms show ?thesis
    by (simp add: scrape_podcasts_def)
next
  case (Some details)
  show ?thesis
  proof (cases "page_pub_date E soup")
    case (Inl e)
    with assms Some show ?thesis
      by (simp add: scrape_podcasts_def)
  next
    case (Inr pd)
    with assms Some
    have "p \<in> set (fst (audio_loop (concat (stripped_strings details)) pd (nested_audio soup)))"
      by (simp add: scrape_podcasts_def)
    from audio_loop_yields_from [OF this] show ?thesis
      by blast
  qed
qed

lemma audio_loop_nth:
  "i < length (fst (audio_loop dsc pd srcs)) \<Longrightarrow>
     i < length srcs \<and> podcast_of_audio dsc pd (srcs ! i) = Inr (fst (audio_loop dsc pd srcs) ! i)"
proof (induction srcs arbitrary: i)
  case Nil
  then show ?case by simp
next
  case (Cons src srcs)
  show ?case
  proof (cases "podcast_of_audio dsc pd src")
    case (Inl e)
    with Cons.prems show ?thesis
      by simp
  next
    case (Inr p)
    show ?thesis
    proof (cases i)
      case 0
      with Inr show ?thesis
        by (simp add: gen_cons_def)
    next
      case (Suc j)
      with Cons.prems Inr have "j < length (fst (audio_loop dsc pd srcs))"
        by (simp add: gen_cons_def)
      from Cons.IH [OF this] Suc Inr show ?thesis
        by (simp add: gen_cons_def)
    qed
  qed
qed

lemma scrape_podcasts_nth:
  assumes "i < length (fst (scrape_podcasts E soup))"
  shows "i < length (nested_audio soup)
     \<and> (\<exists>dsc pd. podcast_of_audio dsc pd (nested_audio soup ! i)
                    = Inr (fst (scrape_podcasts E soup) ! i))"
proof (cases "find_tag (\<lambda>n. is_named ''div'' n \<and> has_class ''details'' n) soup")
  case None
  with assms show ?thesis
    by (simp add: scrape_podcasts_def)
next
  case (Some details)
  show ?thesis
  proof (cases "page_pub_date E soup")
    case (Inl e)
    with assms Some show ?thesis
      by (simp add: scrape_podcasts_def)
  next
    case (Inr pd)
    with Some have s: "scrape_podcasts E soup
        = audio_loop (concat (stripped_strings details)) pd (nested_audio soup)"
      by (rule scrape_podcasts_scan)
    from assms have "i < length (fst (audio_loop (concat (stripped_strings details)) pd
        (nested_audio soup)))"
      by (simp only: s)
    from audio_loop_nth [OF this] show ?thesis
      unfolding s by blast
  qed
qed

text \<open>C8. The \<open>duration\<close> of every \<^verbatim>\<open>Podcast\<close> that the page scan emits is the value of
  the attribute \<^verbatim>\<open>data-duration\<close> of the audio element it was built from, as a
  string, as it stands in the page: each \<^verbatim>\<open>Podcast\<close> is the one that line 199 builds
  from an audio element of the nesting, the \<open>i\<close>-th from the \<open>i\<close>-th that the loops
  visit, and its \<open>duration\<close> is that element's attribute. The selections downstream
  compare these strings: the podcast that the filter \<^verbatim>\<open>unedited\<close> yields has the
  greatest \<open>duration\<close>, and the one that \<^verbatim>\<open>edited\<close> yields the least, in the order
  of strings, among the podcasts that pass the age test.\<close>

theorem duration_is_attribute_text:
  "(\<forall>p \<in> set (fst (scrape_podcasts E soup)).
      \<exists>src \<in> set (nested_audio soup). \<exists>dsc pd.
        podcast_of_audio dsc pd src = Inr p
        \<and> get_attr src ''data-duration'' = Some (duration p))
   \<and> (\<forall>i < length (fst (scrape_podcasts E soup)).
        i < length (nested_audio soup)
        \<and> get_attr (nested_audio soup ! i) ''data-duration''
            = Some (duration (fst (scrape_podcasts E soup) ! i)))
   \<and> (podcast_filter_unedited since d (ps, None) = ([q], None) \<longrightarrow>
        (\<forall>p \<in> set ps. \<not> too_old since p \<longrightarrow> duration p \<le> duration q))
   \<and> (podcast_filter_edited since d (ps, None) = ([q], None) \<longrightarrow>
        (\<forall>p \<in> set ps. \<not> too_old since p \<longrightarrow> duration q \<le> duration p))"
proof -
  have 1: "\<forall>p \<in> set (fst (scrape_podcasts E soup)).
      \<exists>src \<in> set (nested_audio soup). \<exists>dsc pd.
        podcast_of_audio dsc pd src = Inr p
        \<and> get_attr src ''data-duration'' = Some (duration p)"
  proof
    fix p
    assume "p \<in> set (fst (scrape_podcasts E soup))"
    from scrape_podcasts_yields_from [OF this]
    obtain src dsc pd where s: "src \<in> set (nested_audio soup)"
      and b: "podcast_of_audio dsc pd src = Inr p"
      by blast
    from b have "get_attr src ''data-duration'' = Some (duration p)"
      by (rule podcast_of_audio_duration)
    with s b show "\<exists>src \<in> set (nested_audio soup). \<exists>dsc pd.
        podcast_of_audio dsc pd src = Inr p
        \<and> get_attr src ''data-duration'' = Some (duration p)"
      by blast
  qed
  have 2: "\<forall>i < length (fst (scrape_podcasts E soup)).
        i < length (nested_audio soup)
        \<and> get_attr (nested_audio soup ! i) ''data-duration''
            = Some (duration (fst (scrape_podcasts E soup) ! i))"
  proof (intro allI impI)
    fix i
    assume "i < length (fst (scrape_podcasts E soup))"
    from scrape_podcasts_nth [OF this]
    obtain dsc pd where l: "i < length (nested_audio soup)"
      and b: "podcast_of_audio dsc pd (nested_audio soup ! i)
                = Inr (fst (scrape_podcasts E soup) ! i)"
      by blast
    from b have "get_attr (nested_audio soup ! i) ''data-duration''
            = Some (duration (fst (scrape_podcasts E soup) ! i))"
      by (rule podcast_of_audio_duration)
    with l show "i < length (nested_audio soup)
        \<and> get_attr (nested_audio soup ! i) ''data-duration''
            = Some (duration (fst (scrape_podcasts E soup) ! i))"
      by simp
  qed
  have 3: "podcast_filter_unedited since d (ps, None) = ([q], None) \<longrightarrow>
        (\<forall>p \<in> set ps. \<not> too_old since p \<longrightarrow> duration p \<le> duration q)"
    using unedited_greatest_string by blast
  have 4: "podcast_filter_edited since d (ps, None) = ([q], None) \<longrightarrow>
        (\<forall>p \<in> set ps. \<not> too_old since p \<longrightarrow> duration q \<le> duration p)"
    using edited_least_string by blast
  show ?thesis
    by (rule conjI [OF 1 conjI [OF 2 conjI [OF 3 4]]])
qed

theorem duration_is_attribute_text_witness:
  "fst (scrape_podcasts env0 page_999_1000)
     = [Podcast ''edited'' ''A debate.'' None ''https://traffic.megaphone.fm/edited.mp3''
          ''audio/mpeg'' ''999'',
        Podcast ''unedited'' ''A debate.'' None ''https://traffic.megaphone.fm/unedited.mp3''
          ''audio/mpeg'' ''1000'']
   \<and> get_attr (nested_audio page_999_1000 ! 0) ''data-duration'' = Some ''999''
   \<and> get_attr (nested_audio page_999_1000 ! 1) ''data-duration'' = Some ''1000''
   \<and> podcast_filter_unedited None (Debate ''/debates/b'' 0)
        ([Podcast ''edited'' ''A debate.'' None ''https://traffic.megaphone.fm/edited.mp3''
            ''audio/mpeg'' ''999'',
          Podcast ''unedited'' ''A debate.'' None ''https://traffic.megaphone.fm/unedited.mp3''
            ''audio/mpeg'' ''1000''], None)
     = ([Podcast ''edited'' ''A debate.'' None ''https://traffic.megaphone.fm/edited.mp3''
           ''audio/mpeg'' ''999''], None)
   \<and> (''1000'' :: string) \<le> ''999''"
proof -
  let ?e = "Podcast ''edited'' ''A debate.'' None ''https://traffic.megaphone.fm/edited.mp3''
          ''audio/mpeg'' ''999''"
  let ?u = "Podcast ''unedited'' ''A debate.'' None ''https://traffic.megaphone.fm/unedited.mp3''
          ''audio/mpeg'' ''1000''"
  note t = duration_is_attribute_text [of env0 page_999_1000 None "Debate ''/debates/b'' 0"
      "[?e, ?u]" ?e]
  have 1: "fst (scrape_podcasts env0 page_999_1000) = [?e, ?u]"
    by code_simp
  have 2: "podcast_filter_unedited None (Debate ''/debates/b'' 0) ([?e, ?u], None) = ([?e], None)"
    by code_simp
  have 3: "\<not> too_old None ?u"
    by (simp add: too_old_def)
  from t have n: "\<forall>i < length (fst (scrape_podcasts env0 page_999_1000)).
        i < length (nested_audio page_999_1000)
        \<and> get_attr (nested_audio page_999_1000 ! i) ''data-duration''
            = Some (duration (fst (scrape_podcasts env0 page_999_1000) ! i))"
    by blast
  from n have a0: "get_attr (nested_audio page_999_1000 ! 0) ''data-duration'' = Some ''999''"
    unfolding 1 by simp
  from n have a1: "get_attr (nested_audio page_999_1000 ! 1) ''data-duration'' = Some ''1000''"
    unfolding 1 by simp
  from t 2 3 have "duration ?u \<le> duration ?e"
    by simp
  then have 4: "(''1000'' :: string) \<le> ''999''"
    by simp
  from 1 a0 a1 2 4 show ?thesis
    by (intro conjI)
qed

text \<open>C1, at a page with two recordings of 999 and of 1000 seconds: the filter of
  \<^verbatim>\<open>--audio unedited\<close> yields one podcast, the one of 999 seconds, because \<open>''999''\<close> is
  the greater string. The claim asks for the recording of 1000 seconds.\<close>

theorem unedited_yields_shorter_recording:
  "fst (scrape_podcasts env0 page_999_1000)
     = [Podcast ''edited'' ''A debate.'' None ''https://traffic.megaphone.fm/edited.mp3''
          ''audio/mpeg'' ''999'',
        Podcast ''unedited'' ''A debate.'' None ''https://traffic.megaphone.fm/unedited.mp3''
          ''audio/mpeg'' ''1000'']
   \<and> main_podcast_filter Unedited None (Debate ''/debates/b'' 0)
        (scrape_podcasts env0 page_999_1000)
     = ([Podcast ''edited'' ''A debate.'' None ''https://traffic.megaphone.fm/edited.mp3''
           ''audio/mpeg'' ''999''], None)
   \<and> duration_seconds
        (Podcast ''edited'' ''A debate.'' None ''https://traffic.megaphone.fm/edited.mp3''
           ''audio/mpeg'' ''999'') = 999
   \<and> duration_seconds
        (Podcast ''unedited'' ''A debate.'' None ''https://traffic.megaphone.fm/unedited.mp3''
           ''audio/mpeg'' ''1000'') = 1000"
  by code_simp

end
